theory Spec2Isabelle
  imports Main "HOL-Library.Word"
begin

unbundle bit_operations_syntax

section \<open>JavaScript values\<close>

text \<open>
  The client exchanges JSON with the station and stores parsed JSON in its fields.
  \<open>JUndefined\<close> is JavaScript's \<open>undefined\<close> (a missing property); it never occurs in a
  parsed body. Strings are lists of code units below 256 (\<open>charCodeAt\<close> is \<open>of_char\<close>).
  Numeric payloads are carried as integers; no modelled operation computes with them.
\<close>

datatype json =
    JUndefined
  | JNull
  | JBool bool
  | JNum int
  | JStr string
  | JArr "json list"
  | JObj "(string \<times> json) list"

datatype js_error =
    NoStationAvailable
  | RequestTimeout
  | ApiRequestFailed nat
  | AbortError
  | FetchFailed
  | JsonSyntaxError
  | TypeError
  | AiClientNotAvailable
  | FileReadError

text \<open>Truthiness, as used by \<open>if (x)\<close>, \<open>!x\<close>, \<open>a || b\<close> and \<open>a && b\<close>.\<close>

fun truthy :: "json \<Rightarrow> bool" where
  "truthy JUndefined = False"
| "truthy JNull = False"
| "truthy (JBool b) = b"
| "truthy (JNum n) = (n \<noteq> 0)"
| "truthy (JStr s) = (s \<noteq> [])"
| "truthy (JArr xs) = True"
| "truthy (JObj kvs) = True"

definition js_or :: "json \<Rightarrow> json \<Rightarrow> json" where
  "js_or a b = (if truthy a then a else b)"

text \<open>Property read \<open>v.name\<close>: a \<open>TypeError\<close> on \<open>null\<close> and \<open>undefined\<close>, the stored
  value on an object that has the key, \<open>undefined\<close> otherwise (no name that the code reads
  is a built-in property of a string, a number or an array).\<close>

fun get_prop :: "json \<Rightarrow> string \<Rightarrow> js_error + json" where
  "get_prop JUndefined k = Inl TypeError"
| "get_prop JNull k = Inl TypeError"
| "get_prop (JObj kvs) k = (case map_of kvs k of Some v \<Rightarrow> Inr v | None \<Rightarrow> Inr JUndefined)"
| "get_prop v k = Inr JUndefined"

section \<open>The insertion-ordered \<open>Map\<close> behind \<open>visionCache\<close>\<close>

text \<open>
  A JavaScript \<open>Map\<close> iterates its keys in the order of their first insertion. \<open>set\<close> on a key
  that is present replaces the value and keeps the position; on a new key it appends.
\<close>

type_synonym js_map = "(string \<times> json) list"

definition map_has :: "js_map \<Rightarrow> string \<Rightarrow> bool" where
  "map_has m k = (map_of m k \<noteq> None)"

definition map_get :: "js_map \<Rightarrow> string \<Rightarrow> json" where
  "map_get m k = (case map_of m k of Some v \<Rightarrow> v | None \<Rightarrow> JUndefined)"

fun map_set :: "js_map \<Rightarrow> string \<Rightarrow> json \<Rightarrow> js_map" where
  "map_set [] k v = [(k, v)]"
| "map_set (p # ps) k v = (if fst p = k then (k, v) # ps else p # map_set ps k v)"

definition map_delete :: "js_map \<Rightarrow> string \<Rightarrow> js_map" where
  "map_delete m k = filter (\<lambda>p. fst p \<noteq> k) m"

text \<open>\<open>m.keys().next().value\<close>: the first key, \<open>undefined\<close> on an empty map.\<close>

fun first_key :: "js_map \<Rightarrow> string option" where
  "first_key [] = None"
| "first_key (p # ps) = Some (fst p)"

section \<open>Cache keys\<close>

definition digit36 :: "nat \<Rightarrow> char" where
  "digit36 d = ''0123456789abcdefghijklmnopqrstuvwxyz'' ! d"

fun toString36_nat :: "nat \<Rightarrow> string" where
  "toString36_nat n = (if n < 36 then [digit36 n] else toString36_nat (n div 36) @ [digit36 (n mod 36)])"

definition toString36 :: "int \<Rightarrow> string" where
  "toString36 i = (if i < 0 then CHR ''-'' # toString36_nat (nat (- i)) else toString36_nat (nat i))"

text \<open>
  \<open>hashString\<close>: \<open>hash = ((hash << 5) - hash) + char; hash = hash & hash\<close> for every code unit,
  on a 32-bit signed integer, rendered by \<open>toString(36)\<close>.
\<close>

definition hash_step :: "32 word \<Rightarrow> char \<Rightarrow> 32 word" where
  "hash_step hash ch = (push_bit 5 hash - hash) + of_nat (of_char ch)"

definition hash32 :: "string \<Rightarrow> 32 word" where
  "hash32 str = foldl hash_step 0 str"

definition hashString :: "string \<Rightarrow> string" where
  "hashString str = toString36 (sint (hash32 str))"

definition generateCacheKey :: "string \<Rightarrow> string \<Rightarrow> string \<Rightarrow> string" where
  "generateCacheKey type imageData additional =
     type @ ''_'' @ hashString imageData @ ''_'' @ hashString additional"

section \<open>The station client\<close>

text \<open>The fields of \<open>MultimodalAIStationClient\<close>, in the order the constructor sets them.\<close>

record capabilities =
  multimodal :: json
  vision_processing :: json
  server_mode :: json
  model_type :: json

record client =
  stationURL :: "string option"
  isConnected :: bool
  connectionAttempts :: nat
  maxAttempts :: nat
  timeout :: nat
  visionTimeout :: nat
  translationTimeout :: nat
  commonIPs :: "string list"
  visionCache :: js_map
  maxCacheSize :: nat
  capabilities :: capabilities

definition default_commonIPs :: "string list" where
  "default_commonIPs =
     [''localhost:8080'', ''127.0.0.1:8080'', ''192.168.1.87:8080'', ''192.168.1.200:8080'',
      ''192.168.0.200:8080'', ''10.0.0.200:8080'', ''172.16.0.200:8080'', ''192.168.4.1:8080'',
      ''10.42.0.1:8080'']"

text \<open>\<open>checkURLParameter\<close>: a non-empty \<open>ai_server\<close> query parameter is put in front of the
  list (\<open>unshift\<close>); the argument is what \<open>urlParams.get('ai_server')\<close> returns.\<close>

definition checkURLParameter :: "string option \<Rightarrow> string list \<Rightarrow> string list" where
  "checkURLParameter aiServer ips =
     (case aiServer of
        None \<Rightarrow> ips
      | Some a \<Rightarrow> if a \<noteq> [] then a # ips else ips)"

definition constructor :: "string option \<Rightarrow> client" where
  "constructor aiServer =
     \<lparr> stationURL = None,
       isConnected = False,
       connectionAttempts = 0,
       maxAttempts = 3,
       timeout = 600000,
       visionTimeout = 600000,
       translationTimeout = 900000,
       commonIPs = checkURLParameter aiServer default_commonIPs,
       visionCache = [],
       maxCacheSize = 50,
       capabilities = \<lparr> multimodal = JBool False, vision_processing = JBool False,
                        server_mode = JStr ''unknown'', model_type = JUndefined \<rparr> \<rparr>"

definition endpoints_status :: string where "endpoints_status = ''/api/status''"
definition endpoints_translate :: string where "endpoints_translate = ''/api/translate''"
definition endpoints_search :: string where "endpoints_search = ''/api/search''"
definition endpoints_medical :: string where "endpoints_medical = ''/api/medical''"
definition endpoints_legal :: string where "endpoints_legal = ''/api/legal''"
definition endpoints_chat :: string where "endpoints_chat = ''/api/chat''"
definition endpoints_vision_ocr :: string where "endpoints_vision_ocr = ''/api/vision/ocr''"
definition endpoints_vision_document :: string where
  "endpoints_vision_document = ''/api/vision/document''"
definition endpoints_vision_medical :: string where
  "endpoints_vision_medical = ''/api/vision/medical''"
definition endpoints_multimodal_chat :: string where
  "endpoints_multimodal_chat = ''/api/multimodal/chat''"

subsection \<open>\<open>cacheVisionResult\<close>\<close>

text \<open>
  \<open>if (size >= maxCacheSize) delete(keys().next().value); set(key, result)\<close>.
  Deleting \<open>undefined\<close> from an empty map does nothing.
\<close>

definition cacheVisionResult :: "string \<Rightarrow> json \<Rightarrow> client \<Rightarrow> client" where
  "cacheVisionResult key result c =
     (let vc = (if length (visionCache c) \<ge> maxCacheSize c
                then (case first_key (visionCache c) of
                        Some firstKey \<Rightarrow> map_delete (visionCache c) firstKey
                      | None \<Rightarrow> visionCache c)
                else visionCache c)
      in c\<lparr>visionCache := map_set vc key result\<rparr>)"

definition clearVisionCache :: "client \<Rightarrow> client" where
  "clearVisionCache c = c\<lparr>visionCache := []\<rparr>"

text \<open>A sequence of insertions, applied from left to right.\<close>

definition insert_all :: "(string \<times> json) list \<Rightarrow> client \<Rightarrow> client" where
  "insert_all ops c = fold (\<lambda>p. cacheVisionResult (fst p) (snd p)) ops c"

section \<open>The network and the browser around the client\<close>

text \<open>
  What \<open>fetch\<close> does is given by the environment: the \<open>n\<close>-th fetch of a run, for a given
  request, either fails (a \<open>TypeError\<close>, the connection is refused or drops) or answers with an
  HTTP status and a body, each after some milliseconds. The body is the value
  \<open>response.json()\<close> parses, \<open>None\<close> when it is not JSON. Every fetch settles after finitely
  many milliseconds; a server that never answers a call with a timer is a latency beyond it.
\<close>

record request =
  req_method :: string
  req_url :: string
  req_body :: "json option"

datatype fetch_outcome =
    NetworkFailure nat
  | Responds nat nat "json option"

type_synonym network = "nat \<Rightarrow> request \<Rightarrow> fetch_outcome"

fun latency :: "fetch_outcome \<Rightarrow> nat" where
  "latency (NetworkFailure t) = t"
| "latency (Responds t st body) = t"

text \<open>The clock (\<open>Date.now()\<close>), the requests issued so far, and the \<open>aiStationURL\<close> item
  of \<open>localStorage\<close>.\<close>

record world =
  now :: nat
  fetch_log :: "request list"
  localStorage_aiStationURL :: "string option"

text \<open>
  \<open>fetch\<close> under an optional \<open>AbortController\<close> timer: the timer wins unless the fetch
  settles strictly before it fires.
\<close>

definition fetch ::
  "network \<Rightarrow> nat option \<Rightarrow> request \<Rightarrow> world \<Rightarrow> (js_error + nat \<times> json option) \<times> world" where
  "fetch net timer r w =
     (let out = net (length (fetch_log w)) r;
          w1 = w\<lparr>fetch_log := fetch_log w @ [r]\<rparr>
      in case timer of
           None \<Rightarrow>
             (case out of
                NetworkFailure t \<Rightarrow> (Inl FetchFailed, w1\<lparr>now := now w + t\<rparr>)
              | Responds t st body \<Rightarrow> (Inr (st, body), w1\<lparr>now := now w + t\<rparr>))
         | Some ms \<Rightarrow>
             if ms \<le> latency out then (Inl AbortError, w1\<lparr>now := now w + ms\<rparr>)
             else
               (case out of
                  NetworkFailure t \<Rightarrow> (Inl FetchFailed, w1\<lparr>now := now w + t\<rparr>)
                | Responds t st body \<Rightarrow> (Inr (st, body), w1\<lparr>now := now w + t\<rparr>)))"

definition response_ok :: "nat \<Rightarrow> bool" where
  "response_ok st = (200 \<le> st \<and> st \<le> 299)"

text \<open>\<open>`${this.stationURL}`\<close> in a template string.\<close>

fun template :: "string option \<Rightarrow> string" where
  "template None = ''null''"
| "template (Some u) = u"

fun starts_with :: "string \<Rightarrow> string \<Rightarrow> bool" where
  "starts_with s [] = True"
| "starts_with [] (p # ps) = False"
| "starts_with (x # xs) (p # ps) = (x = p \<and> starts_with xs ps)"

text \<open>\<open>String.prototype.includes\<close>.\<close>

fun str_includes :: "string \<Rightarrow> string \<Rightarrow> bool" where
  "str_includes [] sub = (sub = [])"
| "str_includes (x # xs) sub = (starts_with (x # xs) sub \<or> str_includes xs sub)"

subsection \<open>Discovery\<close>

definition status_request :: "string \<Rightarrow> request" where
  "status_request url = \<lparr> req_method = ''GET'', req_url = url @ endpoints_status, req_body = None \<rparr>"

text \<open>\<open>testConnection\<close>: a status probe aborted after 3000 ms; every failure is \<open>false\<close>.\<close>

definition testConnection :: "network \<Rightarrow> string \<Rightarrow> world \<Rightarrow> bool \<times> world" where
  "testConnection net url w =
     (case fetch net (Some 3000) (status_request url) w of
        (Inl e, w1) \<Rightarrow> (False, w1)
      | (Inr (st, body), w1) \<Rightarrow>
          if response_ok st then
            (case body of
               None \<Rightarrow> (False, w1)
             | Some data \<Rightarrow>
                 (case get_prop data ''status'' of
                    Inl e \<Rightarrow> (False, w1)
                  | Inr status \<Rightarrow>
                      (status = JStr ''ready'' \<or> status = JStr ''ok'' \<or> status = JStr ''online'', w1)))
          else (False, w1))"

text \<open>\<open>updateCapabilities\<close>: an untimed status fetch; any failure leaves the fields as they were.\<close>

definition updateCapabilities :: "network \<Rightarrow> client \<times> world \<Rightarrow> client \<times> world" where
  "updateCapabilities net cw =
     (case cw of (c, w) \<Rightarrow>
        (case fetch net None (status_request (template (stationURL c))) w of
           (Inl e, w1) \<Rightarrow> (c, w1)
         | (Inr (st, body), w1) \<Rightarrow>
             (case body of
                None \<Rightarrow> (c, w1)
              | Some data \<Rightarrow>
                  (case (get_prop data ''multimodal_enabled'', get_prop data ''vision_processing'',
                         get_prop data ''mode'', get_prop data ''model_type'') of
                     (Inr m, Inr v, Inr mode, Inr mt) \<Rightarrow>
                       (c\<lparr>capabilities :=
                            \<lparr> multimodal = js_or m (JBool False),
                              vision_processing = js_or v (JBool False),
                              server_mode = js_or mode (JStr ''unknown''),
                              model_type = js_or mt (JStr ''unknown'') \<rparr>\<rparr>, w1)
                   | _ \<Rightarrow> (c, w1)))))"

definition mdnsNames :: "string list" where
  "mdnsNames =
     [''refugee-connect.local:8080'', ''ai-station.local:8080'', ''raspberrypi.local:8080'',
      ''gemma-station.local:8080'']"

text \<open>The saved address is probed first; when it answers it is adopted without being
  written to \<open>localStorage\<close> again.\<close>

definition trySaved :: "network \<Rightarrow> client \<times> world \<Rightarrow> bool \<times> client \<times> world" where
  "trySaved net cw =
     (case cw of (c, w) \<Rightarrow>
        (case localStorage_aiStationURL w of
           None \<Rightarrow> (False, c, w)
         | Some savedURL \<Rightarrow>
             if savedURL = [] then (False, c, w)
             else
               (case testConnection net savedURL w of
                  (True, w1) \<Rightarrow>
                    (case updateCapabilities net (c\<lparr>stationURL := Some savedURL, isConnected := True\<rparr>, w1) of
                       (c2, w2) \<Rightarrow> (True, c2, w2))
                | (False, w1) \<Rightarrow> (False, c, w1))))"

text \<open>The body of both \<open>for\<close> loops of \<open>detectStation\<close>: the first address that passes
  \<open>testConnection\<close> is adopted, stored in \<open>localStorage\<close>, and ends the search.\<close>

fun scan :: "network \<Rightarrow> string list \<Rightarrow> client \<times> world \<Rightarrow> bool \<times> client \<times> world" where
  "scan net [] (c, w) = (False, c, w)"
| "scan net (ip # ips) (c, w) =
     (let url = ''http://'' @ ip
      in case testConnection net url w of
           (True, w1) \<Rightarrow>
             (case updateCapabilities net
                     (c\<lparr>stationURL := Some url, isConnected := True\<rparr>,
                      w1\<lparr>localStorage_aiStationURL := Some url\<rparr>) of
                (c2, w2) \<Rightarrow> (True, c2, w2))
         | (False, w1) \<Rightarrow> scan net ips (c, w1))"

definition detectStation :: "network \<Rightarrow> client \<times> world \<Rightarrow> bool \<times> client \<times> world" where
  "detectStation net cw =
     (case trySaved net cw of
        (True, c1, w1) \<Rightarrow> (True, c1, w1)
      | (False, c1, w1) \<Rightarrow>
          (case scan net (commonIPs c1) (c1, w1) of
             (True, c2, w2) \<Rightarrow> (True, c2, w2)
           | (False, c2, w2) \<Rightarrow>
               (case scan net mdnsNames (c2, w2) of
                  (True, c3, w3) \<Rightarrow> (True, c3, w3)
                | (False, c3, w3) \<Rightarrow> (False, c3\<lparr>isConnected := False\<rparr>, w3))))"

text \<open>
  The words of the discovery algorithm, for comparison with \<open>detectStation\<close>. A probe of
  \<open>url\<close>, issued as the \<open>n\<close>-th fetch, is ready when it is answered within the 3 seconds of
  the short probe by an ok response whose JSON body carries the status \<open>ready\<close>, \<open>ok\<close> or
  \<open>online\<close>. The candidates are the saved address, if there is one, then the explicit
  \<open>host:port\<close> pairs, then the name-service hostnames.
\<close>

definition probe_ready :: "network \<Rightarrow> nat \<Rightarrow> string \<Rightarrow> bool" where
  "probe_ready net n url =
     (case net n (status_request url) of
        NetworkFailure t \<Rightarrow> False
      | Responds t st body \<Rightarrow>
          t < 3000 \<and> response_ok st \<and>
          (case body of
             Some (JObj kvs) \<Rightarrow>
               (case map_of kvs ''status'' of
                  Some (JStr s) \<Rightarrow> s = ''ready'' \<or> s = ''ok'' \<or> s = ''online''
                | _ \<Rightarrow> False)
           | _ \<Rightarrow> False))"

definition candidates :: "client \<Rightarrow> world \<Rightarrow> string list" where
  "candidates c w =
     (case localStorage_aiStationURL w of
        None \<Rightarrow> []
      | Some savedURL \<Rightarrow> if savedURL = [] then [] else [savedURL])
     @ map (\<lambda>ip. ''http://'' @ ip) (commonIPs c)
     @ map (\<lambda>name. ''http://'' @ name) mdnsNames"

text \<open>A status probe is a \<open>GET\<close> without a body; every API call of \<open>makeRequest\<close> carries
  a body.\<close>

definition is_status_probe :: "request \<Rightarrow> bool" where
  "is_status_probe r = (req_method r = ''GET'' \<and> req_body r = None)"

text \<open>
  Probing the list \<open>us\<close> in order, starting as the \<open>n\<close>-th fetch: candidate \<open>k\<close> is the first
  one whose probe is ready; no candidate's probe is ready.
\<close>

definition first_ready_at :: "network \<Rightarrow> nat \<Rightarrow> string list \<Rightarrow> nat \<Rightarrow> bool" where
  "first_ready_at net n us k =
     (k < length us \<and> probe_ready net (n + k) (us ! k) \<and>
      list_all (\<lambda>j. \<not> probe_ready net (n + j) (us ! j)) [0..<k])"

definition none_ready :: "network \<Rightarrow> nat \<Rightarrow> string list \<Rightarrow> bool" where
  "none_ready net n us = list_all (\<lambda>j. \<not> probe_ready net (n + j) (us ! j)) [0..<length us]"

subsection \<open>\<open>makeRequest\<close>\<close>

record options =
  opt_method :: "string option"
  opt_timeout :: "nat option"

definition no_options :: options where
  "no_options = \<lparr> opt_method = None, opt_timeout = None \<rparr>"

text \<open>\<open>!this.stationURL\<close> holds for \<open>null\<close> and for the empty string.\<close>

fun url_truthy :: "string option \<Rightarrow> bool" where
  "url_truthy None = False"
| "url_truthy (Some u) = (u \<noteq> [])"

text \<open>\<open>options.timeout || this.timeout\<close>, then the vision tier for vision and multimodal
  endpoints.\<close>

definition actualTimeout :: "client \<Rightarrow> string \<Rightarrow> options \<Rightarrow> nat" where
  "actualTimeout c endpoint opts =
     (let requestTimeout = (case opt_timeout opts of
                              None \<Rightarrow> timeout c
                            | Some t \<Rightarrow> if t \<noteq> 0 then t else timeout c);
          isVisionRequest = (str_includes endpoint ''/vision/'' \<or> str_includes endpoint ''/multimodal/'')
      in if isVisionRequest then visionTimeout c else requestTimeout)"

definition api_request :: "client \<Rightarrow> string \<Rightarrow> json \<Rightarrow> options \<Rightarrow> request" where
  "api_request c endpoint data opts =
     \<lparr> req_method = (case opt_method opts of
                       None \<Rightarrow> ''POST''
                     | Some m \<Rightarrow> if m \<noteq> [] then m else ''POST''),
       req_url = template (stationURL c) @ endpoint,
       req_body = Some data \<rparr>"

text \<open>
  \<open>makeRequest\<close>. Without a connected station it runs \<open>detectStation\<close> first and throws
  \<open>No AI station available\<close> when that fails. \<open>sendRequest\<close> is the rest of the function, from
  the choice of the timeout on: in the \<open>catch\<close> branch an \<open>AbortError\<close> is rethrown as the
  timeout error before \<open>isConnected\<close> is touched; every other error (a failed fetch, a non-ok
  status, an unparsable body) clears \<open>isConnected\<close> and is rethrown.
\<close>

definition sendRequest ::
  "network \<Rightarrow> string \<Rightarrow> json \<Rightarrow> options \<Rightarrow> client \<times> world \<Rightarrow> (js_error + json) \<times> client \<times> world" where
  "sendRequest net endpoint data opts cw =
     (case cw of (c, w) \<Rightarrow>
        (case fetch net (Some (actualTimeout c endpoint opts)) (api_request c endpoint data opts) w of
           (Inl e, w2) \<Rightarrow>
             if e = AbortError then (Inl RequestTimeout, c, w2)
             else (Inl e, c\<lparr>isConnected := False\<rparr>, w2)
         | (Inr (st, body), w2) \<Rightarrow>
             if \<not> response_ok st then (Inl (ApiRequestFailed st), c\<lparr>isConnected := False\<rparr>, w2)
             else
               (case body of
                  None \<Rightarrow> (Inl JsonSyntaxError, c\<lparr>isConnected := False\<rparr>, w2)
                | Some result \<Rightarrow> (Inr result, c, w2))))"

definition makeRequest ::
  "network \<Rightarrow> string \<Rightarrow> json \<Rightarrow> options \<Rightarrow> client \<times> world \<Rightarrow> (js_error + json) \<times> client \<times> world" where
  "makeRequest net endpoint data opts cw =
     (case cw of (c, w) \<Rightarrow>
        if \<not> isConnected c \<or> \<not> url_truthy (stationURL c) then
          (case detectStation net (c, w) of
             (False, c1, w1) \<Rightarrow> (Inl NoStationAvailable, c1, w1)
           | (True, c1, w1) \<Rightarrow> sendRequest net endpoint data opts (c1, w1))
        else sendRequest net endpoint data opts (c, w))"

subsection \<open>Vision operations\<close>

text \<open>
  The three vision calls share one shape: look the key up when \<open>useCache\<close> is set, otherwise
  call the station, read a field of the result for the log line (which throws a \<open>TypeError\<close>
  when the station sent \<open>null\<close>), store the result when \<open>useCache\<close> is set, and return it.
  Every error is rethrown.
\<close>

definition serverOCR ::
  "network \<Rightarrow> string \<Rightarrow> string \<Rightarrow> bool \<Rightarrow> client \<times> world \<Rightarrow> (js_error + json) \<times> client \<times> world" where
  "serverOCR net imageData language useCache cw =
     (case cw of (c, w) \<Rightarrow>
        (let cacheKey = generateCacheKey ''ocr'' imageData language
         in if useCache \<and> map_has (visionCache c) cacheKey
            then (Inr (map_get (visionCache c) cacheKey), c, w)
            else
              (case makeRequest net endpoints_vision_ocr
                      (JObj [(''image'', JStr imageData), (''language'', JStr language),
                             (''timestamp'', JNum (int (now w)))])
                      no_options (c, w) of
                 (Inl e, c1, w1) \<Rightarrow> (Inl e, c1, w1)
               | (Inr result, c1, w1) \<Rightarrow>
                   (case get_prop result ''confidence'' of
                      Inl e \<Rightarrow> (Inl e, c1, w1)
                    | Inr confidence \<Rightarrow>
                        (Inr result,
                         if useCache then cacheVisionResult cacheKey result c1 else c1, w1)))))"

definition analyzeDocument ::
  "network \<Rightarrow> string \<Rightarrow> string \<Rightarrow> bool \<Rightarrow> client \<times> world \<Rightarrow> (js_error + json) \<times> client \<times> world" where
  "analyzeDocument net imageData documentType useCache cw =
     (case cw of (c, w) \<Rightarrow>
        (let cacheKey = generateCacheKey ''document'' imageData documentType
         in if useCache \<and> map_has (visionCache c) cacheKey
            then (Inr (map_get (visionCache c) cacheKey), c, w)
            else
              (case makeRequest net endpoints_vision_document
                      (JObj [(''image'', JStr imageData), (''document_type'', JStr documentType),
                             (''timestamp'', JNum (int (now w)))])
                      no_options (c, w) of
                 (Inl e, c1, w1) \<Rightarrow> (Inl e, c1, w1)
               | (Inr result, c1, w1) \<Rightarrow>
                   (case get_prop result ''document_type'' of
                      Inl e \<Rightarrow> (Inl e, c1, w1)
                    | Inr document_type \<Rightarrow>
                        (Inr result,
                         if useCache then cacheVisionResult cacheKey result c1 else c1, w1)))))"

definition analyzeMedicalImage ::
  "network \<Rightarrow> string \<Rightarrow> string \<Rightarrow> bool \<Rightarrow> client \<times> world \<Rightarrow> (js_error + json) \<times> client \<times> world" where
  "analyzeMedicalImage net imageData symptoms useCache cw =
     (case cw of (c, w) \<Rightarrow>
        (let cacheKey = generateCacheKey ''medical'' imageData symptoms
         in if useCache \<and> map_has (visionCache c) cacheKey
            then (Inr (map_get (visionCache c) cacheKey), c, w)
            else
              (case makeRequest net endpoints_vision_medical
                      (JObj [(''image'', JStr imageData), (''symptoms'', JStr symptoms),
                             (''timestamp'', JNum (int (now w)))])
                      no_options (c, w) of
                 (Inl e, c1, w1) \<Rightarrow> (Inl e, c1, w1)
               | (Inr result, c1, w1) \<Rightarrow>
                   (case get_prop result ''urgency_level'' of
                      Inl e \<Rightarrow> (Inl e, c1, w1)
                    | Inr urgency_level \<Rightarrow>
                        (Inr result,
                         if useCache then cacheVisionResult cacheKey result c1 else c1, w1)))))"

text \<open>
  \<open>multimodalChat\<close>: \<open>imageData\<close> is \<open>null\<close> (\<open>None\<close>) or a string; the key is computed, looked
  up and written only under \<open>imageData && useCache\<close>.
\<close>

definition multimodalChat ::
  "network \<Rightarrow> string \<Rightarrow> string option \<Rightarrow> bool \<Rightarrow> client \<times> world \<Rightarrow> (js_error + json) \<times> client \<times> world" where
  "multimodalChat net text imageData useCache cw =
     (case cw of (c, w) \<Rightarrow>
        (let cacheKey = (case imageData of
                           None \<Rightarrow> None
                         | Some i \<Rightarrow>
                             if i \<noteq> [] \<and> useCache then Some (generateCacheKey ''chat'' i text)
                             else None)
         in case (case cacheKey of
                    None \<Rightarrow> None
                  | Some k \<Rightarrow>
                      if map_has (visionCache c) k then Some (map_get (visionCache c) k)
                      else None) of
              Some cached \<Rightarrow> (Inr cached, c, w)
            | None \<Rightarrow>
                (case makeRequest net endpoints_multimodal_chat
                        (JObj [(''text'', JStr text),
                               (''image'', (case imageData of None \<Rightarrow> JNull | Some i \<Rightarrow> JStr i)),
                               (''timestamp'', JNum (int (now w)))])
                        no_options (c, w) of
                   (Inl e, c1, w1) \<Rightarrow> (Inl e, c1, w1)
                 | (Inr result, c1, w1) \<Rightarrow>
                     (case get_prop result ''language_detected'' of
                        Inl e \<Rightarrow> (Inl e, c1, w1)
                      | Inr language_detected \<Rightarrow>
                          (Inr result,
                           (case cacheKey of
                              None \<Rightarrow> c1
                            | Some k \<Rightarrow>
                                if url_truthy imageData \<and> useCache \<and> k \<noteq> []
                                then cacheVisionResult k result c1 else c1),
                           w1)))))"

subsection \<open>Text operations\<close>

definition translate ::
  "network \<Rightarrow> string \<Rightarrow> string \<Rightarrow> string \<Rightarrow> string \<Rightarrow> client \<times> world \<Rightarrow> (js_error + json) \<times> client \<times> world" where
  "translate net text fromLang toLang context cw =
     (case cw of (c, w) \<Rightarrow>
        (case makeRequest net endpoints_translate
                (JObj [(''text'', JStr text), (''from'', JStr fromLang), (''to'', JStr toLang),
                       (''context'', JStr context), (''timestamp'', JNum (int (now w)))])
                \<lparr> opt_method = Some ''POST'', opt_timeout = Some (translationTimeout c) \<rparr> (c, w) of
           (Inl e, c1, w1) \<Rightarrow> (Inl e, c1, w1)
         | (Inr result, c1, w1) \<Rightarrow>
             if truthy result then
               (case (get_prop result ''translated_text'', get_prop result ''from_language'',
                      get_prop result ''to_language'') of
                  (Inr translated_text, Inr from_language, Inr to_language) \<Rightarrow>
                    if truthy translated_text then
                      (Inr (JObj [(''translation'', translated_text),
                                  (''from_language'', from_language),
                                  (''to_language'', to_language),
                                  (''success'', JBool True)]), c1, w1)
                    else (Inr result, c1, w1)
                | _ \<Rightarrow> (Inl TypeError, c1, w1))
             else (Inr result, c1, w1)))"

definition chatWithGemma ::
  "network \<Rightarrow> string \<Rightarrow> client \<times> world \<Rightarrow> (js_error + json) \<times> client \<times> world" where
  "chatWithGemma net message cw =
     (case cw of (c, w) \<Rightarrow>
        makeRequest net endpoints_chat
          (JObj [(''message'', JStr message), (''timestamp'', JNum (int (now w)))])
          no_options (c, w))"

text \<open>\<open>searchFamily\<close>: \<open>return result.matches || []\<close>, and \<open>return []\<close> in the \<open>catch\<close> branch.\<close>

definition searchFamily ::
  "network \<Rightarrow> string \<Rightarrow> client \<times> world \<Rightarrow> (js_error + json) \<times> client \<times> world" where
  "searchFamily net query cw =
     (case cw of (c, w) \<Rightarrow>
        (case makeRequest net endpoints_search
                (JObj [(''query'', JStr query), (''type'', JStr ''family''),
                       (''timestamp'', JNum (int (now w)))])
                no_options (c, w) of
           (Inl e, c1, w1) \<Rightarrow> (Inr (JArr []), c1, w1)
         | (Inr result, c1, w1) \<Rightarrow>
             (case get_prop result ''matches'' of
                Inl e \<Rightarrow> (Inr (JArr []), c1, w1)
              | Inr matches \<Rightarrow> (Inr (js_or matches (JArr [])), c1, w1))))"

definition getMedicalAdvice ::
  "network \<Rightarrow> string \<Rightarrow> string \<Rightarrow> client \<times> world \<Rightarrow> (js_error + json) \<times> client \<times> world" where
  "getMedicalAdvice net symptoms urgency cw =
     (case cw of (c, w) \<Rightarrow>
        makeRequest net endpoints_medical
          (JObj [(''symptoms'', JStr symptoms), (''urgency'', JStr urgency),
                 (''timestamp'', JNum (int (now w)))])
          no_options (c, w))"

definition getLegalAdvice ::
  "network \<Rightarrow> string \<Rightarrow> string \<Rightarrow> client \<times> world \<Rightarrow> (js_error + json) \<times> client \<times> world" where
  "getLegalAdvice net situation country cw =
     (case cw of (c, w) \<Rightarrow>
        makeRequest net endpoints_legal
          (JObj [(''situation'', JStr situation), (''country'', JStr country),
                 (''timestamp'', JNum (int (now w)))])
          no_options (c, w))"

text \<open>Fifty insertions under pairwise different keys, used to fill a fresh cache.\<close>

definition fifty :: "(string \<times> json) list" where
  "fifty = map (\<lambda>i. (replicate i (CHR ''k''), JNum (int i))) [0..<50]"

section \<open>The form assistant's vision pipeline\<close>

text \<open>
  The fields of \<open>GemmorandumMultimodal\<close> that the pipeline reads or writes. \<open>formData\<close> is
  \<open>None\<close> for the empty object \<open>{}\<close> the constructor stores; \<open>processingTime\<close> keeps the two
  summands of \<open>ocrResult.processing_time + docResult.processing_time\<close>. Of the page, the model
  keeps which section is displayed, whether the progress indicator is displayed, and the
  text of the error element (all elements are taken to exist).
\<close>

record processing_state =
  stage :: string
  progress :: nat
  message :: string
  startTime :: "nat option"

record session_state =
  formType :: json
  currentField :: json
  completedFields :: "json list"
  totalFields :: nat
  isProcessing :: bool
  useServerVision :: bool

record form_data =
  extractedText :: json
  documentType :: json
  detectedLanguage :: json
  extractedFields :: json
  criticalFields :: json
  processingTime :: "json \<times> json"

record page =
  visible_section :: string
  visionProgress_visible :: bool
  errorMessage :: "string option"

record gemmorandum =
  conversationHistory :: "json list"
  formData :: "form_data option"
  aiClient :: "client option"
  sessionState :: session_state
  currentLanguage :: json
  processingState :: processing_state
  dom :: page

text \<open>The constructor followed by the part of \<open>initialize\<close> that creates the client.\<close>

definition GemmorandumMultimodal :: "string option \<Rightarrow> gemmorandum" where
  "GemmorandumMultimodal aiServer =
     \<lparr> conversationHistory = [],
       formData = None,
       aiClient = Some (constructor aiServer),
       sessionState = \<lparr> formType = JNull, currentField = JNull, completedFields = [],
                        totalFields = 0, isProcessing = False, useServerVision = True \<rparr>,
       currentLanguage = JStr ''en'',
       processingState = \<lparr> stage = ''idle'', progress = 0, message = [], startTime = None \<rparr>,
       dom = \<lparr> visible_section = ''form-capture-section'', visionProgress_visible = False,
               errorMessage = None \<rparr> \<rparr>"

definition showVisionProcessingProgress :: "gemmorandum \<times> world \<Rightarrow> gemmorandum" where
  "showVisionProcessingProgress sw =
     (case sw of (st, w) \<Rightarrow>
        st\<lparr>dom := (dom st)\<lparr>visionProgress_visible := True\<rparr>,
           processingState := \<lparr> stage = ''initializing'', progress = 0,
                                 message = ''Preparing image for analysis...'',
                                 startTime = Some (now w) \<rparr>\<rparr>)"

text \<open>\<open>showSection\<close> hides the four sections, the progress indicator among them, and shows
  the requested one.\<close>

definition showSection :: "string \<Rightarrow> gemmorandum \<Rightarrow> gemmorandum" where
  "showSection sectionId st =
     st\<lparr>dom := (dom st)\<lparr>visionProgress_visible := (sectionId = ''visionProgress''),
                           visible_section := sectionId\<rparr>\<rparr>"

definition showError :: "string \<Rightarrow> gemmorandum \<Rightarrow> gemmorandum" where
  "showError msg st = st\<lparr>dom := (dom st)\<lparr>errorMessage := Some msg\<rparr>\<rparr>"

definition handleVisionProcessingError :: "js_error \<Rightarrow> gemmorandum \<Rightarrow> gemmorandum" where
  "handleVisionProcessingError error st =
     showSection ''form-capture-section''
       (showError ''Vision processing failed. Please try again or use manual entry.''
          (st\<lparr>dom := (dom st)\<lparr>visionProgress_visible := False\<rparr>\<rparr>))"

text \<open>
  \<open>processVisionResults\<close> stores the results of both stages and then renders them
  (\<open>updateFormInfo\<close>, \<open>createFormAnalysisMessage\<close>, \<open>addMessage\<close>, \<open>showSection\<close>,
  \<open>startGuidedFormCompletion\<close>). The rendering works on the page and the conversation and is
  a parameter here: it gets both results and the state and returns the state it leaves,
  with the error it threw, if any.
\<close>

type_synonym presenter = "json \<Rightarrow> json \<Rightarrow> gemmorandum \<Rightarrow> js_error option \<times> gemmorandum"

definition processVisionResults ::
  "presenter \<Rightarrow> json \<Rightarrow> json \<Rightarrow> gemmorandum \<Rightarrow> js_error option \<times> gemmorandum" where
  "processVisionResults present ocrResult docResult st =
     (let st0 = st\<lparr>dom := (dom st)\<lparr>visionProgress_visible := False\<rparr>\<rparr>
      in case (get_prop ocrResult ''extracted_text'', get_prop docResult ''document_type'',
               get_prop ocrResult ''language_detected'', get_prop docResult ''extracted_fields'',
               get_prop docResult ''critical_fields'', get_prop ocrResult ''processing_time'',
               get_prop docResult ''processing_time'') of
           (Inr extracted_text, Inr document_type, Inr language_detected, Inr extracted_fields,
            Inr critical_fields, Inr ocr_time, Inr doc_time) \<Rightarrow>
             present ocrResult docResult
               (st0\<lparr>currentLanguage := language_detected,
                    conversationHistory := [],
                    sessionState := (sessionState st0)\<lparr>formType := document_type\<rparr>,
                    formData := Some \<lparr> extractedText = extracted_text,
                                        documentType = document_type,
                                        detectedLanguage = language_detected,
                                        extractedFields = js_or extracted_fields (JObj []),
                                        criticalFields = js_or critical_fields (JArr []),
                                        processingTime = (ocr_time, doc_time) \<rparr>\<rparr>)
         | _ \<Rightarrow> (Some TypeError, st0))"

text \<open>
  The language handed to \<open>serverOCR\<close> is \<open>this.currentLanguage\<close>, which \<open>processVisionResults\<close>
  overwrites with whatever \<open>language_detected\<close> the station sent: a value of any JSON type.
  \<open>hashString\<close> on such a value: \<open>str.length\<close> throws on \<open>null\<close> and \<open>undefined\<close>; a number or a
  boolean has no length, the loop does not run and the hash is \<open>0\<close>; a non-empty array has
  a length and no \<open>charCodeAt\<close>, which throws; an object is hashed to \<open>0\<close> unless it carries a
  \<open>length\<close> property \<open>v\<close> with \<open>0 < v\<close>, which throws as for an array. For a string or an array
  \<open>v\<close>, \<open>0 < v\<close> is decided by JavaScript's parse of a numeric string; it is the parameter
  \<open>positive\<close>, and what is proved holds for every such parameter.
\<close>

fun length_positive :: "(json \<Rightarrow> bool) \<Rightarrow> json \<Rightarrow> bool" where
  "length_positive positive (JNum n) = (0 < n)"
| "length_positive positive (JBool b) = b"
| "length_positive positive (JStr s) = positive (JStr s)"
| "length_positive positive (JArr xs) = positive (JArr xs)"
| "length_positive positive v = False"

fun hashString_any :: "(json \<Rightarrow> bool) \<Rightarrow> json \<Rightarrow> js_error + string" where
  "hashString_any positive (JStr s) = Inr (hashString s)"
| "hashString_any positive JUndefined = Inl TypeError"
| "hashString_any positive JNull = Inl TypeError"
| "hashString_any positive (JNum n) = Inr ''0''"
| "hashString_any positive (JBool b) = Inr ''0''"
| "hashString_any positive (JArr xs) = (if xs = [] then Inr ''0'' else Inl TypeError)"
| "hashString_any positive (JObj kvs) =
     (case map_of kvs ''length'' of
        None \<Rightarrow> Inr ''0''
      | Some v \<Rightarrow> if length_positive positive v then Inl TypeError else Inr ''0'')"

text \<open>
  The call \<open>serverOCR(imageData, language)\<close> with a language of any type and the default
  \<open>useCache\<close>: \<open>undefined\<close> takes the default parameter \<open>'en'\<close>, a string is the call modelled
  by \<open>serverOCR\<close>, and any other value runs the same body with the key that
  \<open>hashString_any\<close> gives and with the value itself in the request.
\<close>

definition serverOCR_language ::
  "(json \<Rightarrow> bool) \<Rightarrow> network \<Rightarrow> string \<Rightarrow> json \<Rightarrow> client \<times> world \<Rightarrow>
     (js_error + json) \<times> client \<times> world" where
  "serverOCR_language positive net imageData language cw =
     (case language of
        JUndefined \<Rightarrow> serverOCR net imageData ''en'' True cw
      | JStr l \<Rightarrow> serverOCR net imageData l True cw
      | _ \<Rightarrow>
          (case cw of (c, w) \<Rightarrow>
             (case hashString_any positive language of
                Inl e \<Rightarrow> (Inl e, c, w)
              | Inr additionalHash \<Rightarrow>
                  (let cacheKey = ''ocr'' @ ''_'' @ hashString imageData @ ''_'' @ additionalHash
                   in if map_has (visionCache c) cacheKey
                      then (Inr (map_get (visionCache c) cacheKey), c, w)
                      else
                        (case makeRequest net endpoints_vision_ocr
                                (JObj [(''image'', JStr imageData), (''language'', language),
                                       (''timestamp'', JNum (int (now w)))])
                                no_options (c, w) of
                           (Inl e, c1, w1) \<Rightarrow> (Inl e, c1, w1)
                         | (Inr result, c1, w1) \<Rightarrow>
                             (case get_prop result ''confidence'' of
                                Inl e \<Rightarrow> (Inl e, c1, w1)
                              | Inr confidence \<Rightarrow>
                                  (Inr result, cacheVisionResult cacheKey result c1, w1)))))))"

text \<open>
  The two stages of \<open>processImageWithServerVision\<close> (gemmorandum-multimodal.js): the state
  reached, with the error thrown on the way, if any. The client object is updated by each
  call it serves.
\<close>

definition visionStages ::
  "(json \<Rightarrow> bool) \<Rightarrow> network \<Rightarrow> presenter \<Rightarrow> string \<Rightarrow> client \<Rightarrow> gemmorandum \<times> world \<Rightarrow>
     js_error option \<times> gemmorandum \<times> world" where
  "visionStages positive net present base64Image cl sw =
     (case sw of (st, w) \<Rightarrow>
        (let st1 = st\<lparr>processingState :=
                       \<lparr> stage = ''ocr'', progress = 10,
                         message = ''Extracting text from image...'',
                         startTime = Some (now w) \<rparr>\<rparr>
         in case serverOCR_language positive net base64Image (currentLanguage st) (cl, w) of
              (Inl e, cl1, w1) \<Rightarrow> (Some e, st1\<lparr>aiClient := Some cl1\<rparr>, w1)
            | (Inr ocrResult, cl1, w1) \<Rightarrow>
                (let st2 = st1\<lparr>aiClient := Some cl1,
                               processingState :=
                                 \<lparr> stage = ''analysis'', progress = 50,
                                   message = ''Analyzing document structure...'',
                                   startTime = Some (now w1) \<rparr>\<rparr>
                 in case analyzeDocument net base64Image ''general'' True (cl1, w1) of
                      (Inl e, cl2, w2) \<Rightarrow> (Some e, st2\<lparr>aiClient := Some cl2\<rparr>, w2)
                    | (Inr docResult, cl2, w2) \<Rightarrow>
                        (let st3 = st2\<lparr>aiClient := Some cl2,
                                       processingState :=
                                         \<lparr> stage = ''complete'', progress = 100,
                                           message = ''Processing complete!'',
                                           startTime = Some (now w2) \<rparr>\<rparr>
                         in case (get_prop ocrResult ''confidence'',
                                  get_prop docResult ''document_type'') of
                              (Inr confidence, Inr document_type) \<Rightarrow>
                                (case processVisionResults present ocrResult docResult st3 of
                                   (err, st4) \<Rightarrow> (err, st4, w2))
                            | _ \<Rightarrow> (Some TypeError, st3, w2)))))"

text \<open>
  \<open>processImageWithServerVision\<close> (gemmorandum-multimodal.js). \<open>converted\<close> is what
  \<open>processImageFile\<close> resolves to or rejects with. Whatever is thrown inside the \<open>try\<close> ends in
  \<open>handleVisionProcessingError\<close>, and the function returns normally.
\<close>

definition processImageWithServerVision ::
  "(json \<Rightarrow> bool) \<Rightarrow> network \<Rightarrow> presenter \<Rightarrow> js_error + string \<Rightarrow> gemmorandum \<times> world \<Rightarrow>
     gemmorandum \<times> world" where
  "processImageWithServerVision positive net present converted sw =
     (case sw of (st, w) \<Rightarrow>
        (case aiClient st of
           None \<Rightarrow> (handleVisionProcessingError TypeError st, w)
         | Some cl \<Rightarrow>
             (case converted of
                Inl e \<Rightarrow> (handleVisionProcessingError e st, w)
              | Inr base64Image \<Rightarrow>
                  (case visionStages positive net present base64Image cl (st, w) of
                     (None, st1, w1) \<Rightarrow> (st1, w1)
                   | (Some e, st1, w1) \<Rightarrow> (handleVisionProcessingError e st1, w1)))))"

text \<open>
  \<open>processImageWithServerVision\<close> of the class in gemmorandum-multimodal-fixed.js. That class
  defines neither \<open>updateVisionProgress\<close> nor \<open>handleVisionProcessingError\<close>. A failed
  conversion falls back to \<open>fileToBase64\<close>, whose outcome is \<open>fallback\<close>; after a conversion
  the processing state is set and the call of \<open>updateVisionProgress\<close> throws, before Stage 1.
  Every path reaches the \<open>catch\<close> branch, whose call of \<open>handleVisionProcessingError\<close> throws
  in turn: the function rejects with that \<open>TypeError\<close> and issues no request.
\<close>

definition processImageWithServerVision_fixed ::
  "js_error + string \<Rightarrow> js_error + string \<Rightarrow> gemmorandum \<times> world \<Rightarrow>
     js_error \<times> gemmorandum \<times> world" where
  "processImageWithServerVision_fixed converted fallback sw =
     (case sw of (st, w) \<Rightarrow>
        (case aiClient st of
           None \<Rightarrow> (TypeError, st, w)
         | Some cl \<Rightarrow>
             (case (case converted of Inl e \<Rightarrow> fallback | Inr base64Image \<Rightarrow> Inr base64Image) of
                Inl e \<Rightarrow> (TypeError, st, w)
              | Inr base64Image \<Rightarrow>
                  (TypeError,
                   st\<lparr>processingState :=
                        \<lparr> stage = ''ocr'', progress = 10,
                          message = ''Extracting text from image...'',
                          startTime = Some (now w) \<rparr>\<rparr>,
                   w))))"

section \<open>The admission scheduler\<close>

text \<open>
  Modelled from the spec: the server-side request queue (\<open>enhanced/request_queue.py\<close>, started
  by \<open>start_enhanced_server.sh\<close>) is not among the sources; only its configuration banner is.
  The priority classes, from the most to the least urgent.
\<close>

datatype priority = Emergency | Medical | Legal | Translation | Chat | Background

text \<open>Modelled from the spec: the order emergency > medical > legal > translation > chat >
  background, as a number.\<close>

fun urgency :: "priority \<Rightarrow> nat" where
  "urgency Emergency = 5"
| "urgency Medical = 4"
| "urgency Legal = 3"
| "urgency Translation = 2"
| "urgency Chat = 1"
| "urgency Background = 0"

text \<open>Modelled from the spec: a request envelope (its payload and timeout budget play no
  part in admission) and a queue entry.\<close>

record envelope =
  env_id :: nat
  priorityClass :: priority
  submittedAt :: nat

record queue_entry =
  entry_envelope :: envelope
  enqueuedAt :: nat

text \<open>Modelled from the spec: the admission state, with the requests that were dropped from
  the queue and a clock that stamps queue entries.\<close>

record scheduler =
  maxConcurrent :: nat
  maxQueueSize :: nat
  executing :: "envelope list"
  waiting :: "queue_entry list"
  dropped :: "envelope list"
  ticks :: nat

text \<open>Modelled from the spec: what a submission is told. \<open>Rejected\<close> is \<open>AdmissionRejected\<close>;
  the envelope of \<open>EnqueuedEvicting\<close> is the queued request that is reported
  \<open>OverflowDropped\<close>.\<close>

datatype decision = Admitted | Enqueued | EnqueuedEvicting envelope | Rejected

text \<open>
  Modelled from the spec: the lowest-priority entry currently queued. The spec does not say
  which of several entries of the lowest class is taken; this takes the one enqueued last.
\<close>

fun lowest_entry :: "queue_entry list \<Rightarrow> queue_entry option" where
  "lowest_entry [] = None"
| "lowest_entry (q # qs) =
     (case lowest_entry qs of
        None \<Rightarrow> Some q
      | Some l \<Rightarrow>
          if urgency (priorityClass (entry_envelope q)) < urgency (priorityClass (entry_envelope l))
          then Some q else Some l)"

text \<open>
  Modelled from the spec: the admission rule of section 4.3. (1) A free slot admits.
  (2) Otherwise a free queue place enqueues. (3) Otherwise the incoming request evicts the
  lowest-priority queued entry when it is strictly more urgent, and is rejected when it is
  not.
\<close>

definition submit :: "envelope \<Rightarrow> scheduler \<Rightarrow> scheduler \<times> decision" where
  "submit e s =
     (let entry = \<lparr> entry_envelope = e, enqueuedAt = ticks s \<rparr>;
          s1 = s\<lparr>ticks := Suc (ticks s)\<rparr>
      in if length (executing s) < maxConcurrent s then
           (s1\<lparr>executing := executing s @ [e]\<rparr>, Admitted)
         else if length (waiting s) < maxQueueSize s then
           (s1\<lparr>waiting := waiting s @ [entry]\<rparr>, Enqueued)
         else
           (case lowest_entry (waiting s) of
              None \<Rightarrow> (s1, Rejected)
            | Some l \<Rightarrow>
                if urgency (priorityClass (entry_envelope l)) < urgency (priorityClass e) then
                  (s1\<lparr>waiting := remove1 l (waiting s) @ [entry],
                      dropped := dropped s @ [entry_envelope l]\<rparr>,
                   EnqueuedEvicting (entry_envelope l))
                else (s1, Rejected)))"

text \<open>Modelled from the spec: submissions one after the other, with their decisions.\<close>

fun submit_all :: "envelope list \<Rightarrow> scheduler \<Rightarrow> scheduler \<times> decision list" where
  "submit_all [] s = (s, [])"
| "submit_all (e # es) s =
     (case submit e s of
        (s1, d) \<Rightarrow> (case submit_all es s1 of (s2, ds) \<Rightarrow> (s2, d # ds)))"

text \<open>Modelled from the spec: dequeue takes the most urgent queued entry, the earliest
  enqueued among equals.\<close>

fun next_entry :: "queue_entry list \<Rightarrow> queue_entry option" where
  "next_entry [] = None"
| "next_entry (q # qs) =
     (case next_entry qs of
        None \<Rightarrow> Some q
      | Some h \<Rightarrow>
          if urgency (priorityClass (entry_envelope h)) > urgency (priorityClass (entry_envelope q))
          then Some h else Some q)"

text \<open>Modelled from the spec: on completion (success or failure) the slot is freed and the
  next eligible queued entry is admitted.\<close>

definition complete :: "nat \<Rightarrow> scheduler \<Rightarrow> scheduler" where
  "complete i s =
     (let running = filter (\<lambda>e. env_id e \<noteq> i) (executing s)
      in case next_entry (waiting s) of
           None \<Rightarrow> s\<lparr>executing := running\<rparr>
         | Some h \<Rightarrow>
             if length running < maxConcurrent s
             then s\<lparr>executing := running @ [entry_envelope h], waiting := remove1 h (waiting s)\<rparr>
             else s\<lparr>executing := running\<rparr>)"

text \<open>Modelled from the spec: the fairness scenario, \<open>maxConcurrent = 3\<close>, \<open>maxQueueSize = 1\<close>,
  and the priorities chat, chat, chat, emergency, chat submitted in this order.\<close>

definition scheduler_3_1 :: scheduler where
  "scheduler_3_1 =
     \<lparr> maxConcurrent = 3, maxQueueSize = 1, executing = [], waiting = [], dropped = [],
       ticks = 0 \<rparr>"

definition request :: "nat \<Rightarrow> priority \<Rightarrow> envelope" where
  "request i p = \<lparr> env_id = i, priorityClass = p, submittedAt = i \<rparr>"

definition fairness_scenario :: "envelope list" where
  "fairness_scenario =
     [request 1 Chat, request 2 Chat, request 3 Chat, request 4 Emergency, request 5 Chat]"

section \<open>A station for concrete runs\<close>

text \<open>
  A client that is connected to the station at \<open>192.168.1.87:8080\<close>, a browser that has made
  no request yet, and two photos whose data URLs differ in their last two characters.
\<close>

definition station :: string where
  "station = ''http://192.168.1.87:8080''"

definition connected_client :: client where
  "connected_client = (constructor None)\<lparr>stationURL := Some station, isConnected := True\<rparr>"

definition fresh_world :: world where
  "fresh_world = \<lparr> now = 0, fetch_log = [], localStorage_aiStationURL = None \<rparr>"

definition photo_a :: string where
  "photo_a = ''data:image/jpeg;base64,/9j/4AAQAa''"

definition photo_b :: string where
  "photo_b = ''data:image/jpeg;base64,/9j/4AAQBB''"

text \<open>The body field \<open>k\<close> of a request, \<open>undefined\<close> when there is none.\<close>

definition body_field :: "request \<Rightarrow> string \<Rightarrow> json" where
  "body_field r k =
     (case req_body r of
        None \<Rightarrow> JUndefined
      | Some b \<Rightarrow> (case get_prop b k of Inl e \<Rightarrow> JUndefined | Inr v \<Rightarrow> v))"

text \<open>
  A healthy station: it answers status probes with \<open>ready\<close> after 20 ms, OCR requests after
  1500 ms with the image it was sent as the extracted text, document analysis after 1200 ms,
  and everything else with an empty object; other hosts refuse the connection.
\<close>

definition healthy_net :: network where
  "healthy_net n r =
     (if req_url r = station @ endpoints_status then
        Responds 20 200 (Some (JObj [(''status'', JStr ''ready''), (''mode'', JStr ''mock''),
                                     (''multimodal_enabled'', JBool True),
                                     (''vision_processing'', JBool True)]))
      else if req_url r = station @ endpoints_vision_ocr then
        Responds 1500 200 (Some (JObj [(''extracted_text'', body_field r ''image''),
                                       (''confidence'', JNum 1),
                                       (''language_detected'', JStr ''en'')]))
      else if req_url r = station @ endpoints_vision_document then
        Responds 1200 200 (Some (JObj [(''document_type'', JStr ''asylum_application''),
                                       (''completion_percentage'', JNum 0)]))
      else if starts_with (req_url r) station then Responds 100 200 (Some (JObj []))
      else NetworkFailure 5)"

text \<open>A network on which nothing answers: every connection is refused after 5 ms.\<close>

definition down_net :: network where
  "down_net n r = NetworkFailure 5"

text \<open>A station that is up but busy: every call is answered with an empty object after
  700000 ms.\<close>

definition slow_net :: network where
  "slow_net n r = Responds 700000 200 (Some (JObj []))"

text \<open>A station whose inference engine fails: every call gets status 500 after 100 ms.\<close>

definition failing_net :: network where
  "failing_net n r = Responds 100 500 None"

text \<open>The healthy station behind a link that drops the first call after 5 ms.\<close>

definition flaky_net :: network where
  "flaky_net n r = (if n = 0 then NetworkFailure 5 else healthy_net n r)"

definition hello :: json where
  "hello = JObj [(''message'', JStr ''hello''), (''timestamp'', JNum 0)]"

text \<open>A browser that remembers the access-point address of an earlier session, which no
  longer answers.\<close>

definition returning_world :: world where
  "returning_world =
     \<lparr> now = 0, fetch_log = [], localStorage_aiStationURL = Some ''http://192.168.4.1:8080'' \<rparr>"

text \<open>
  A station whose OCR works and whose document analysis fails: OCR requests are answered
  with the text \<open>T\<close>, document analysis with status 500.
\<close>

definition ocr_only_net :: network where
  "ocr_only_net n r =
     (if req_url r = station @ endpoints_vision_ocr then
        Responds 1500 200 (Some (JObj [(''extracted_text'', JStr ''T''),
                                       (''confidence'', JNum 1),
                                       (''language_detected'', JStr ''en'')]))
      else if req_url r = station @ endpoints_vision_document then Responds 100 500 None
      else healthy_net n r)"

text \<open>The assistant with its client connected to the station, the progress indicator shown,
  and a rendering that changes nothing.\<close>

definition assistant :: gemmorandum where
  "assistant =
     showVisionProcessingProgress
       ((GemmorandumMultimodal None)\<lparr>aiClient := Some connected_client\<rparr>, fresh_world)"

definition no_rendering :: presenter where
  "no_rendering ocrResult docResult st = (None, st)"

text \<open>For the concrete runs, a value of the parameter of \<open>hashString_any\<close>; the runs with a
  string or a number as language do not depend on it.\<close>

definition no_numeric_string :: "json \<Rightarrow> bool" where
  "no_numeric_string v = False"

text \<open>A station that answers status probes at once and takes 700000 ms for every other
  call.\<close>

definition busy_net :: network where
  "busy_net n r =
     (if req_url r = station @ endpoints_status then healthy_net n r
      else if starts_with (req_url r) station then Responds 700000 200 (Some (JObj []))
      else NetworkFailure 5)"

text \<open>
  A station for the vision calls: medical analysis and multimodal chat get answers of their
  own, everything else is answered as by the healthy station.
\<close>

definition vision_net :: network where
  "vision_net n r =
     (if req_url r = station @ endpoints_vision_medical then
        Responds 900 200 (Some (JObj [(''urgency_level'', JStr ''high''),
                                      (''symptoms'', body_field r ''symptoms'')]))
      else if req_url r = station @ endpoints_multimodal_chat then
        Responds 800 200 (Some (JObj [(''response'', body_field r ''text''),
                                      (''language_detected'', JStr ''en'')]))
      else healthy_net n r)"

text \<open>A third photo, whose hash differs from that of the other two.\<close>

definition photo_c :: string where
  "photo_c = ''data:image/png;base64,iVBORw0KGgo''"
section \<open>Properties\<close>

declare toString36_nat.simps [simp del]

lemmas endpoints_defs =
  endpoints_status_def endpoints_translate_def endpoints_search_def endpoints_medical_def
  endpoints_legal_def endpoints_chat_def endpoints_vision_ocr_def endpoints_vision_document_def
  endpoints_vision_medical_def endpoints_multimodal_chat_def

text \<open>The equations that evaluate a concrete run.\<close>

lemmas eval_defs = serverOCR_def analyzeDocument_def analyzeMedicalImage_def multimodalChat_def
  makeRequest_def sendRequest_def fetch_def actualTimeout_def api_request_def
  generateCacheKey_def hashString_def hash32_def hash_step_def toString36_def toString36_nat.simps digit36_def
  map_has_def map_get_def cacheVisionResult_def connected_client_def constructor_def checkURLParameter_def
  fresh_world_def photo_a_def photo_b_def healthy_net_def station_def endpoints_defs no_options_def
  response_ok_def body_field_def Let_def


lemmas eval2_defs = eval_defs slow_net_def down_net_def failing_net_def chatWithGemma_def translate_def searchFamily_def
  getMedicalAdvice_def getLegalAdvice_def

lemmas eval3_defs = eval2_defs flaky_net_def busy_net_def hello_def detectStation_def trySaved_def testConnection_def
  updateCapabilities_def status_request_def mdnsNames_def default_commonIPs_def js_or_def

lemmas eval4_defs = eval3_defs ocr_only_net_def assistant_def no_rendering_def GemmorandumMultimodal_def
  showVisionProcessingProgress_def showSection_def showError_def handleVisionProcessingError_def
  processVisionResults_def visionStages_def processImageWithServerVision_def
  serverOCR_language_def no_numeric_string_def

subsection \<open>The cache\<close>

lemma map_of_map_set: "map_of (map_set m k v) = (map_of m)(k \<mapsto> v)"
  by (induction m) (auto simp: fun_eq_iff)

lemma keys_map_set: "fst ` set (map_set m k v) = insert k (fst ` set m)"
  by (induction m) auto

lemma length_map_set:
  "length (map_set m k v) = (if k \<in> fst ` set m then length m else Suc (length m))"
  by (induction m) auto

lemma distinct_map_set: "distinct (map fst m) \<Longrightarrow> distinct (map fst (map_set m k v))"
  by (induction m) (auto simp: keys_map_set)

lemma map_set_new: "k \<notin> fst ` set m \<Longrightarrow> map_set m k v = m @ [(k, v)]"
  by (induction m) auto

lemma map_delete_hd:
  "distinct (map fst (p # ps)) \<Longrightarrow> map_delete (p # ps) (fst p) = ps"
  by (auto simp: map_delete_def filter_id_conv rev_image_eqI)

lemma cacheVisionResult_full:
  assumes "distinct (map fst (visionCache c))" "length (visionCache c) \<ge> maxCacheSize c" "visionCache c \<noteq> []"
  shows "visionCache (cacheVisionResult k v c) = map_set (tl (visionCache c)) k v"
  using assms by (cases "visionCache c") (simp_all add: cacheVisionResult_def map_delete_hd del: distinct.simps list.map)

lemma cacheVisionResult_room:
  assumes "length (visionCache c) < maxCacheSize c"
  shows "visionCache (cacheVisionResult k v c) = map_set (visionCache c) k v"
  using assms by (simp add: cacheVisionResult_def)

lemma cacheVisionResult_fields [simp]:
  "maxCacheSize (cacheVisionResult k v c) = maxCacheSize c"
  by (simp add: cacheVisionResult_def Let_def)

lemma cacheVisionResult_inv:
  assumes "distinct (map fst (visionCache c))" "length (visionCache c) \<le> maxCacheSize c" "0 < maxCacheSize c"
  shows "distinct (map fst (visionCache (cacheVisionResult k v c))) \<and> length (visionCache (cacheVisionResult k v c)) \<le> maxCacheSize c"
proof (cases "length (visionCache c) < maxCacheSize c")
  case True
  then show ?thesis using assms by (simp add: cacheVisionResult_room distinct_map_set length_map_set)
next
  case False
  with assms have full: "length (visionCache c) \<ge> maxCacheSize c" and ne: "visionCache c \<noteq> []" by auto
  have d: "distinct (map fst (tl (visionCache c)))" using assms(1) by (simp add: distinct_tl map_tl)
  have "length (tl (visionCache c)) < maxCacheSize c" using assms ne by (cases "visionCache c") auto
  then show ?thesis using d by (simp add: cacheVisionResult_full[OF assms(1) full ne] distinct_map_set length_map_set)
qed

lemma insert_all_inv:
  assumes "distinct (map fst (visionCache c))" "length (visionCache c) \<le> maxCacheSize c" "0 < maxCacheSize c"
  shows "distinct (map fst (visionCache (insert_all ops c))) \<and> length (visionCache (insert_all ops c)) \<le> maxCacheSize c \<and> maxCacheSize (insert_all ops c) = maxCacheSize c"
  using assms
proof (induction ops arbitrary: c)
  case Nil
  then show ?case by (simp add: insert_all_def)
next
  case (Cons p ops)
  have "insert_all (p # ops) c = insert_all ops (cacheVisionResult (fst p) (snd p) c)" by (simp add: insert_all_def)
  moreover note cacheVisionResult_inv[OF Cons.prems, of "fst p" "snd p"]
  ultimately show ?case using Cons.IH[of "cacheVisionResult (fst p) (snd p) c"] Cons.prems by simp
qed


lemma insert_all_fresh:
  assumes "visionCache c = m" "distinct (map fst (m @ ops))" "length (m @ ops) \<le> maxCacheSize c"
  shows "visionCache (insert_all ops c) = m @ ops"
  using assms
proof (induction ops arbitrary: c m)
  case Nil
  then show ?case by (simp add: insert_all_def)
next
  case (Cons p ops)
  let ?c = "cacheVisionResult (fst p) (snd p) c"
  have step: "insert_all (p # ops) c = insert_all ops ?c" by (simp add: insert_all_def)
  have "length (visionCache c) < maxCacheSize c" using Cons.prems by simp
  then have "visionCache ?c = map_set m (fst p) (snd p)"
    using Cons.prems(1) by (simp add: cacheVisionResult_room)
  also have "\<dots> = m @ [p]" using Cons.prems(2) by (simp add: map_set_new)
  finally have vc: "visionCache ?c = m @ [p]" .
  have "visionCache (insert_all ops ?c) = (m @ [p]) @ ops"
    using Cons.prems by (intro Cons.IH[OF vc]) simp_all
  then show ?case by (simp add: step)
qed

lemma distinct_fifty: "distinct (map fst fifty)"
  by (simp add: fifty_def distinct_map comp_def inj_on_def del: upt.simps replicate.simps)

lemma length_fifty: "length fifty = 50" by (simp add: fifty_def)


lemma constructor_cache_inv:
  "distinct (map fst (visionCache (insert_all ops (constructor aiServer)))) \<and>
   length (visionCache (insert_all ops (constructor aiServer))) \<le> 50 \<and>
   maxCacheSize (insert_all ops (constructor aiServer)) = 50"
  using insert_all_inv [of "constructor aiServer" ops] by (simp add: constructor_def)

text \<open>
  Claim C6 (result cache capacity). Whatever sequence of \<open>cacheVisionResult\<close> insertions a
  freshly constructed client has performed, its cache holds at most 50 entries. When it holds
  exactly 50, one more insertion removes exactly the entry at the front of the insertion
  order (the oldest one): every other key keeps its value, the cache does not grow, and a key
  that was not present is appended behind the remaining 49 entries.
\<close>

theorem cacheVisionResult_capacity:
  fixes ops :: "(string \<times> json) list" and aiServer :: "string option"
  defines "c \<equiv> insert_all ops (constructor aiServer)"
  shows "length (visionCache c) \<le> 50 \<and>
    (length (visionCache c) = 50 \<longrightarrow>
      (\<exists>oldest rest.
         visionCache c = oldest # rest \<and>
         visionCache (cacheVisionResult k v c) = map_set rest k v \<and>
         length (visionCache (cacheVisionResult k v c)) \<le> 50 \<and>
         (k \<noteq> fst oldest \<longrightarrow> \<not> map_has (visionCache (cacheVisionResult k v c)) (fst oldest)) \<and>
         (\<forall>k'. k' \<noteq> k \<and> k' \<noteq> fst oldest \<longrightarrow>
            map_of (visionCache (cacheVisionResult k v c)) k' = map_of (visionCache c) k') \<and>
         (\<not> map_has (visionCache c) k \<longrightarrow>
            visionCache (cacheVisionResult k v c) = rest @ [(k, v)])))"
proof -
  have inv: "distinct (map fst (visionCache c))" "length (visionCache c) \<le> 50" "maxCacheSize c = 50"
    using constructor_cache_inv [of ops aiServer] by (simp_all add: c_def)
  have "\<exists>oldest rest.
         visionCache c = oldest # rest \<and>
         visionCache (cacheVisionResult k v c) = map_set rest k v \<and>
         length (visionCache (cacheVisionResult k v c)) \<le> 50 \<and>
         (k \<noteq> fst oldest \<longrightarrow> \<not> map_has (visionCache (cacheVisionResult k v c)) (fst oldest)) \<and>
         (\<forall>k'. k' \<noteq> k \<and> k' \<noteq> fst oldest \<longrightarrow>
            map_of (visionCache (cacheVisionResult k v c)) k' = map_of (visionCache c) k') \<and>
         (\<not> map_has (visionCache c) k \<longrightarrow>
            visionCache (cacheVisionResult k v c) = rest @ [(k, v)])"
    if full: "length (visionCache c) = 50"
  proof -
    from full obtain oldest rest where vc: "visionCache c = oldest # rest"
      by (cases "visionCache c") auto
    have after: "visionCache (cacheVisionResult k v c) = map_set rest k v"
      using cacheVisionResult_full [of c k v] inv full vc by simp
    have notin: "fst oldest \<notin> fst ` set rest" using inv(1) vc by simp
    have len: "length (visionCache (cacheVisionResult k v c)) \<le> 50"
      using full vc by (simp add: after length_map_set)
    have gone: "k \<noteq> fst oldest \<longrightarrow> \<not> map_has (map_set rest k v) (fst oldest)"
      using notin by (simp add: map_has_def map_of_map_set map_of_eq_None_iff)
    have kept: "\<forall>k'. k' \<noteq> k \<and> k' \<noteq> fst oldest \<longrightarrow> map_of (map_set rest k v) k' = map_of (oldest # rest) k'"
      by (cases oldest) (simp add: map_of_map_set)
    have fresh: "\<not> map_has (oldest # rest) k \<longrightarrow> map_set rest k v = rest @ [(k, v)]"
      by (cases oldest) (auto simp: map_has_def map_of_eq_None_iff intro!: map_set_new split: if_splits)
    show ?thesis using vc after len gone kept fresh by simp
  qed
  then show ?thesis using inv(2) by blast
qed

text \<open>The hypothesis is met after fifty insertions under different keys.\<close>

theorem cacheVisionResult_capacity_witness:
  "length (visionCache (insert_all fifty (constructor None))) = 50 \<and>
   \<not> map_has (visionCache (insert_all fifty (constructor None))) ''new'' \<and>
   visionCache (cacheVisionResult ''new'' JNull (insert_all fifty (constructor None)))
     = tl fifty @ [(''new'', JNull)]"
proof -
  have vc: "visionCache (insert_all fifty (constructor None)) = fifty"
    using insert_all_fresh [of "constructor None" "[]" fifty] distinct_fifty length_fifty
    by (simp add: constructor_def)
  have "''new'' \<notin> fst ` set fifty"
  proof
    assume "''new'' \<in> fst ` set fifty"
    then obtain i where "''new'' = replicate i (CHR ''k'')"
      unfolding fifty_def set_map image_image fst_conv by blast
    then have "CHR ''n'' \<in> set (replicate i (CHR ''k''))"
      by (metis list.set_intros(1))
    then show False by simp
  qed
  then have new: "\<not> map_has fifty ''new''"
    by (simp add: map_has_def map_of_eq_None_iff)
  let ?c = "insert_all fifty (constructor None)"
  have len: "length (visionCache ?c) = 50" by (simp only: vc length_fifty)
  with cacheVisionResult_capacity [of fifty None "''new''" JNull]
  obtain oldest rest where
    o: "visionCache ?c = oldest # rest" and
    f: "\<not> map_has (visionCache ?c) ''new'' \<longrightarrow>
          visionCache (cacheVisionResult ''new'' JNull ?c) = rest @ [(''new'', JNull)]"
    by blast
  have "rest = tl fifty" using o unfolding vc by (metis list.sel(3))
  then show ?thesis using len f new by (simp only: vc) simp
qed

subsection \<open>Requests do not depend on the cache\<close>

lemma cache_upd_out:
  "c\<lparr>visionCache := vc, stationURL := u, isConnected := b\<rparr> =
   c\<lparr>stationURL := u, isConnected := b, visionCache := vc\<rparr>"
  "c\<lparr>visionCache := vc, isConnected := b\<rparr> = c\<lparr>isConnected := b, visionCache := vc\<rparr>"
  by simp_all

lemma updateCapabilities_frame:
  "updateCapabilities net (c\<lparr>visionCache := vc\<rparr>, w) =
     (case updateCapabilities net (c, w) of (c', w') \<Rightarrow> (c'\<lparr>visionCache := vc\<rparr>, w'))"
  by (simp add: updateCapabilities_def split: prod.splits sum.splits option.splits)

lemma scan_frame:
  "scan net ips (c\<lparr>visionCache := vc\<rparr>, w) =
     (case scan net ips (c, w) of (b, c', w') \<Rightarrow> (b, c'\<lparr>visionCache := vc\<rparr>, w'))"
proof (induction ips arbitrary: c w)
  case Nil
  show ?case by simp
next
  case (Cons ip ips)
  show ?case
    by (simp add: Cons.IH Let_def updateCapabilities_frame cache_upd_out split: prod.splits bool.splits)
qed

lemma trySaved_frame:
  "trySaved net (c\<lparr>visionCache := vc\<rparr>, w) =
     (case trySaved net (c, w) of (b, c', w') \<Rightarrow> (b, c'\<lparr>visionCache := vc\<rparr>, w'))"
  by (simp add: trySaved_def updateCapabilities_frame cache_upd_out split: prod.splits bool.splits option.splits)

lemma detectStation_frame:
  "detectStation net (c\<lparr>visionCache := vc\<rparr>, w) =
     (case detectStation net (c, w) of (b, c', w') \<Rightarrow> (b, c'\<lparr>visionCache := vc\<rparr>, w'))"
  by (simp add: detectStation_def trySaved_frame scan_frame cache_upd_out split: prod.splits bool.splits)



lemma actualTimeout_frame [simp]:
  "actualTimeout (c\<lparr>visionCache := vc\<rparr>) ep opts = actualTimeout c ep opts"
  by (simp add: actualTimeout_def split: option.splits)

lemma api_request_frame [simp]:
  "api_request (c\<lparr>visionCache := vc\<rparr>) ep data opts = api_request c ep data opts"
  by (simp add: api_request_def)

lemma sendRequest_frame:
  "sendRequest net ep data opts (c\<lparr>visionCache := vc\<rparr>, w) =
     (case sendRequest net ep data opts (c, w) of (r, c', w') \<Rightarrow> (r, c'\<lparr>visionCache := vc\<rparr>, w'))"
  by (simp add: sendRequest_def cache_upd_out split: prod.splits sum.splits option.splits)

lemma makeRequest_frame:
  "makeRequest net ep data opts (c\<lparr>visionCache := vc\<rparr>, w) =
     (case makeRequest net ep data opts (c, w) of (r, c', w') \<Rightarrow> (r, c'\<lparr>visionCache := vc\<rparr>, w'))"
  by (simp add: makeRequest_def detectStation_frame sendRequest_frame split: prod.splits bool.splits)


lemma makeRequest_visionCache:
  assumes "makeRequest net ep data opts (c, w) = (r, c', w')"
  shows "visionCache c' = visionCache c"
proof -
  have "makeRequest net ep data opts (c\<lparr>visionCache := visionCache c\<rparr>, w) =
          (r, c'\<lparr>visionCache := visionCache c\<rparr>, w')"
    by (simp only: makeRequest_frame assms prod.case)
  then have "c' = c'\<lparr>visionCache := visionCache c\<rparr>" using assms by simp
  then have "visionCache c' = visionCache (c'\<lparr>visionCache := visionCache c\<rparr>)" by simp
  then show ?thesis by simp
qed

text \<open>
  Claim C10 (text-only multimodal chat never touches the cache). A \<open>multimodalChat\<close> call
  with \<open>imageData = null\<close> leaves the vision cache exactly as it was, whatever \<open>useCache\<close>
  is, and does not consult it: started with any other cache contents, the call returns the
  same result, issues the same requests and leaves the same client, apart from the cache it
  was given.
\<close>

theorem multimodalChat_text_only:
  "visionCache (fst (snd (multimodalChat net text None useCache (c, w)))) = visionCache c \<and>
   multimodalChat net text None useCache (c\<lparr>visionCache := vc\<rparr>, w) =
     (case multimodalChat net text None useCache (c, w) of
        (r, c', w') \<Rightarrow> (r, c'\<lparr>visionCache := vc\<rparr>, w'))"
proof
  show "visionCache (fst (snd (multimodalChat net text None useCache (c, w)))) = visionCache c"
    by (auto simp: multimodalChat_def dest: makeRequest_visionCache split: prod.splits sum.splits)
  show "multimodalChat net text None useCache (c\<lparr>visionCache := vc\<rparr>, w) =
     (case multimodalChat net text None useCache (c, w) of
        (r, c', w') \<Rightarrow> (r, c'\<lparr>visionCache := vc\<rparr>, w'))"
    by (simp add: multimodalChat_def makeRequest_frame split: prod.splits sum.splits)
qed

subsection \<open>What a vision call stores\<close>

lemma cacheVisionResult_lookup:
  "map_of (visionCache (cacheVisionResult k v c)) k = Some v"
  by (simp add: cacheVisionResult_def Let_def map_of_map_set)

lemma serverOCR_stores:
  assumes "serverOCR net img lang True (c, w) = (Inr R, c1, w1)"
  shows "map_of (visionCache c1) (generateCacheKey ''ocr'' img lang) = Some R"
proof (cases "map_has (visionCache c) (generateCacheKey ''ocr'' img lang)")
  case True
  with assms show ?thesis by (auto simp: serverOCR_def map_has_def map_get_def)
next
  case False
  with assms show ?thesis
    by (auto simp: serverOCR_def cacheVisionResult_lookup split: prod.splits sum.splits)
qed

subsection \<open>Cache keys collide\<close>

text \<open>
  Claim C9 (cache keys can collide). \<open>hashString\<close> is not injective: the two different data
  URLs \<open>photo_a\<close> and \<open>photo_b\<close> have the same hash, and so have the auxiliary parameters
  \<open>Aa\<close> and \<open>BB\<close>; \<open>generateCacheKey\<close> therefore gives the same key for them, for every request
  kind. After an OCR call for \<open>photo_a\<close>, the OCR call for \<open>photo_b\<close> is answered from the
  cache with the text of \<open>photo_a\<close> and no request is issued, although the station would have
  answered with the text of \<open>photo_b\<close>.
\<close>

theorem cache_key_collision:
  "photo_a \<noteq> photo_b \<and>
   hashString photo_a = hashString photo_b \<and>
   generateCacheKey kind photo_a aux = generateCacheKey kind photo_b aux \<and>
   ''Aa'' \<noteq> ''BB'' \<and>
   generateCacheKey kind img ''Aa'' = generateCacheKey kind img ''BB'' \<and>
   (case serverOCR healthy_net photo_a ''en'' True (connected_client, fresh_world) of
      (r1, c1, w1) \<Rightarrow>
        r1 = Inr (JObj [(''extracted_text'', JStr photo_a), (''confidence'', JNum 1),
                        (''language_detected'', JStr ''en'')]) \<and>
        serverOCR healthy_net photo_b ''en'' True (c1, w1) = (r1, c1, w1)) \<and>
   fst (serverOCR healthy_net photo_b ''en'' True (connected_client, fresh_world)) =
     Inr (JObj [(''extracted_text'', JStr photo_b), (''confidence'', JNum 1),
                (''language_detected'', JStr ''en'')])"
proof -
  have h: "hashString photo_a = hashString photo_b"
    by (simp add: eval_defs)
  have h2: "hashString ''Aa'' = hashString ''BB''"
    by (simp add: eval_defs)
  have d: "photo_a \<noteq> photo_b" by (simp add: photo_a_def photo_b_def)
  have k: "generateCacheKey kind photo_a aux = generateCacheKey kind photo_b aux"
    "generateCacheKey kind img ''Aa'' = generateCacheKey kind img ''BB''"
    by (simp_all only: generateCacheKey_def h h2)
  have run: "(case serverOCR healthy_net photo_a ''en'' True (connected_client, fresh_world) of
      (r1, c1, w1) \<Rightarrow>
        r1 = Inr (JObj [(''extracted_text'', JStr photo_a), (''confidence'', JNum 1),
                        (''language_detected'', JStr ''en'')]) \<and>
        serverOCR healthy_net photo_b ''en'' True (c1, w1) = (r1, c1, w1))"
    by (simp add: eval_defs)
  have other: "fst (serverOCR healthy_net photo_b ''en'' True (connected_client, fresh_world)) =
     Inr (JObj [(''extracted_text'', JStr photo_b), (''confidence'', JNum 1),
                (''language_detected'', JStr ''en'')])"
    by (simp add: eval_defs)
  show ?thesis using h d k run other by simp
qed

subsection \<open>Errors of the text operations\<close>

text \<open>
  Claim C8 (typed error propagation), evaluated at family search. \<open>searchFamily\<close> never returns
  an error: with the station unreachable it returns the empty list as if the search had found
  nothing, where \<open>getMedicalAdvice\<close>, \<open>getLegalAdvice\<close>, \<open>chatWithGemma\<close> and \<open>translate\<close> return
  the failure of the same network.
\<close>

theorem searchFamily_swallows_failure:
  "\<not> isl (fst (searchFamily net query (c, w))) \<and>
   searchFamily down_net ''Amina Hassan'' (connected_client, fresh_world) =
     (Inr (JArr []),
      connected_client\<lparr>isConnected := False\<rparr>,
      fresh_world\<lparr>now := 5,
        fetch_log := [\<lparr> req_method = ''POST'', req_url = station @ endpoints_search,
                        req_body = Some (JObj [(''query'', JStr ''Amina Hassan''),
                                               (''type'', JStr ''family''),
                                               (''timestamp'', JNum 0)]) \<rparr>]\<rparr>) \<and>
   fst (getMedicalAdvice down_net ''fever'' ''normal'' (connected_client, fresh_world)) = Inl FetchFailed \<and>
   fst (getLegalAdvice down_net ''asylum'' ''general'' (connected_client, fresh_world)) = Inl FetchFailed \<and>
   fst (chatWithGemma down_net ''hello'' (connected_client, fresh_world)) = Inl FetchFailed \<and>
   fst (translate down_net ''hello'' ''en'' ''ar'' ''general'' (connected_client, fresh_world)) = Inl FetchFailed"
proof -
  have 1: "\<not> isl (fst (searchFamily net query (c, w)))"
    by (simp add: searchFamily_def split: prod.splits sum.splits)
  have 2: "searchFamily down_net ''Amina Hassan'' (connected_client, fresh_world) =
     (Inr (JArr []),
      connected_client\<lparr>isConnected := False\<rparr>,
      fresh_world\<lparr>now := 5,
        fetch_log := [\<lparr> req_method = ''POST'', req_url = station @ endpoints_search,
                        req_body = Some (JObj [(''query'', JStr ''Amina Hassan''),
                                               (''type'', JStr ''family''),
                                               (''timestamp'', JNum 0)]) \<rparr>]\<rparr>)"
    by (simp add: eval2_defs)
  have 3: "fst (getMedicalAdvice down_net ''fever'' ''normal'' (connected_client, fresh_world)) = Inl FetchFailed"
    "fst (getLegalAdvice down_net ''asylum'' ''general'' (connected_client, fresh_world)) = Inl FetchFailed"
    "fst (chatWithGemma down_net ''hello'' (connected_client, fresh_world)) = Inl FetchFailed"
    "fst (translate down_net ''hello'' ''en'' ''ar'' ''general'' (connected_client, fresh_world)) = Inl FetchFailed"
    by (simp_all add: eval2_defs)
  show ?thesis using 1 2 3 by simp
qed

subsection \<open>What \<open>sendRequest\<close> does\<close>

lemma makeRequest_connected:
  "isConnected c \<Longrightarrow> url_truthy (stationURL c) \<Longrightarrow>
   makeRequest net ep data opts (c, w) = sendRequest net ep data opts (c, w)"
  by (simp add: makeRequest_def)

lemma makeRequest_disconnected:
  "\<not> isConnected c \<Longrightarrow>
   makeRequest net ep data opts (c, w) =
     (case detectStation net (c, w) of
        (False, c1, w1) \<Rightarrow> (Inl NoStationAvailable, c1, w1)
      | (True, c1, w1) \<Rightarrow> sendRequest net ep data opts (c1, w1))"
  by (simp add: makeRequest_def)

lemma sendRequest_log:
  "sendRequest net ep data opts (c, w) = (r, c1, w1) \<Longrightarrow>
   fetch_log w1 = fetch_log w @ [api_request c ep data opts]"
  by (auto simp: sendRequest_def fetch_def Let_def split: fetch_outcome.splits if_splits option.splits)

lemma sendRequest_timeout_iff:
  "(fst (sendRequest net ep data opts (c, w)) = Inl RequestTimeout) =
   (actualTimeout c ep opts \<le> latency (net (length (fetch_log w)) (api_request c ep data opts)))"
  by (auto simp: sendRequest_def fetch_def Let_def split: fetch_outcome.splits if_splits option.splits)

lemma sendRequest_timeout_client:
  "sendRequest net ep data opts (c, w) = (Inl RequestTimeout, c1, w1) \<Longrightarrow> c1 = c"
  by (auto simp: sendRequest_def fetch_def Let_def split: fetch_outcome.splits if_splits option.splits)

lemma sendRequest_success_client:
  "sendRequest net ep data opts (c, w) = (Inr v, c1, w1) \<Longrightarrow> c1 = c"
  by (auto simp: sendRequest_def fetch_def Let_def split: fetch_outcome.splits if_splits option.splits)

lemma sendRequest_error_client:
  "sendRequest net ep data opts (c, w) = (Inl e, c1, w1) \<Longrightarrow> e \<noteq> RequestTimeout \<Longrightarrow>
   c1 = c\<lparr>isConnected := False\<rparr> \<and> e \<in> {FetchFailed, JsonSyntaxError} \<union> range ApiRequestFailed"
  by (auto simp: sendRequest_def fetch_def Let_def split: fetch_outcome.splits if_splits option.splits)


subsection \<open>Timeout tiers\<close>

lemma get_prop_error: "get_prop v k = Inl e \<Longrightarrow> e = TypeError"
  by (cases v) (auto split: option.splits)

lemma uniform_latency_send:
  assumes "\<forall>n r. latency (net n r) = L"
  shows "(fst (sendRequest net ep data opts (c, w)) = Inl RequestTimeout) = (actualTimeout c ep opts \<le> L)"
  using assms by (simp add: sendRequest_timeout_iff)

lemma actualTimeout_values:
  "opt_timeout opts = Some t \<Longrightarrow> t \<noteq> 0 \<Longrightarrow> actualTimeout c endpoints_translate opts = t"
  "actualTimeout c endpoints_chat no_options = timeout c"
  "actualTimeout c endpoints_vision_ocr opts = visionTimeout c"
  "actualTimeout c endpoints_vision_document opts = visionTimeout c"
  "actualTimeout c endpoints_vision_medical opts = visionTimeout c"
  "actualTimeout c endpoints_multimodal_chat opts = visionTimeout c"
  by (simp_all add: actualTimeout_def endpoints_defs no_options_def)

text \<open>
  Claim C5 (independent timeout tiers). On a connected client, against a station that takes
  \<open>L\<close> ms for every call: a translation times out exactly when \<open>L\<close> reaches the client's
  \<open>translationTimeout\<close>, a chat exactly when \<open>L\<close> reaches \<open>timeout\<close>, and OCR, document analysis
  and multimodal chat exactly when \<open>L\<close> reaches \<open>visionTimeout\<close>; each class reads its own
  field. The constructor sets them to 600000 ms (standard and vision) and 900000 ms
  (translation, the longest).
\<close>

theorem timeout_tiers:
  assumes "isConnected c" and "url_truthy (stationURL c)" and "\<forall>n r. latency (net n r) = L"
  shows "(translationTimeout c \<noteq> 0 \<longrightarrow>
           (fst (translate net text fromLang toLang context (c, w)) = Inl RequestTimeout) =
           (translationTimeout c \<le> L)) \<and>
         ((fst (chatWithGemma net msg (c, w)) = Inl RequestTimeout) = (timeout c \<le> L)) \<and>
         ((fst (serverOCR net img lang False (c, w)) = Inl RequestTimeout) = (visionTimeout c \<le> L)) \<and>
         ((fst (analyzeDocument net img docType False (c, w)) = Inl RequestTimeout) = (visionTimeout c \<le> L)) \<and>
         ((fst (multimodalChat net text None useCache (c, w)) = Inl RequestTimeout) = (visionTimeout c \<le> L)) \<and>
         timeout (constructor aiServer) = 600000 \<and>
         visionTimeout (constructor aiServer) = 600000 \<and>
         translationTimeout (constructor aiServer) = 900000"
proof -
  note mk = makeRequest_connected [OF assms(1,2)]
  have tr: "(fst (translate net text fromLang toLang context (c, w)) = Inl RequestTimeout) =
           (translationTimeout c \<le> L)" if "translationTimeout c \<noteq> 0"
  proof -
    let ?d = "JObj [(''text'', JStr text), (''from'', JStr fromLang), (''to'', JStr toLang),
                       (''context'', JStr context), (''timestamp'', JNum (int (now w)))]"
    let ?o = "\<lparr> opt_method = Some ''POST'', opt_timeout = Some (translationTimeout c) \<rparr>"
    have "(fst (translate net text fromLang toLang context (c, w)) = Inl RequestTimeout) =
          (fst (sendRequest net endpoints_translate ?d ?o (c, w)) = Inl RequestTimeout)"
      by (auto simp: translate_def mk dest: get_prop_error split: prod.splits sum.splits)
    also have "\<dots> = (actualTimeout c endpoints_translate ?o \<le> L)"
      by (rule uniform_latency_send [OF assms(3)])
    finally show ?thesis using that by (simp add: actualTimeout_values)
  qed
  have ch: "(fst (chatWithGemma net msg (c, w)) = Inl RequestTimeout) = (timeout c \<le> L)"
    by (simp add: chatWithGemma_def mk uniform_latency_send [OF assms(3)] actualTimeout_values)
  have ocr: "(fst (serverOCR net img lang False (c, w)) = Inl RequestTimeout) = (visionTimeout c \<le> L)"
  proof -
    let ?d = "JObj [(''image'', JStr img), (''language'', JStr lang), (''timestamp'', JNum (int (now w)))]"
    have "(fst (serverOCR net img lang False (c, w)) = Inl RequestTimeout) =
          (fst (sendRequest net endpoints_vision_ocr ?d no_options (c, w)) = Inl RequestTimeout)"
      by (auto simp: serverOCR_def mk dest: get_prop_error split: prod.splits sum.splits)
    then show ?thesis by (simp add: uniform_latency_send [OF assms(3)] actualTimeout_values)
  qed
  have doc: "(fst (analyzeDocument net img docType False (c, w)) = Inl RequestTimeout) = (visionTimeout c \<le> L)"
  proof -
    let ?d = "JObj [(''image'', JStr img), (''document_type'', JStr docType), (''timestamp'', JNum (int (now w)))]"
    have "(fst (analyzeDocument net img docType False (c, w)) = Inl RequestTimeout) =
          (fst (sendRequest net endpoints_vision_document ?d no_options (c, w)) = Inl RequestTimeout)"
      by (auto simp: analyzeDocument_def mk dest: get_prop_error split: prod.splits sum.splits)
    then show ?thesis by (simp add: uniform_latency_send [OF assms(3)] actualTimeout_values)
  qed
  have mm: "(fst (multimodalChat net text None useCache (c, w)) = Inl RequestTimeout) = (visionTimeout c \<le> L)"
  proof -
    let ?d = "JObj [(''text'', JStr text), (''image'', JNull), (''timestamp'', JNum (int (now w)))]"
    have "(fst (multimodalChat net text None useCache (c, w)) = Inl RequestTimeout) =
          (fst (sendRequest net endpoints_multimodal_chat ?d no_options (c, w)) = Inl RequestTimeout)"
      by (auto simp: multimodalChat_def mk dest: get_prop_error split: prod.splits sum.splits)
    then show ?thesis by (simp add: uniform_latency_send [OF assms(3)] actualTimeout_values)
  qed
  show ?thesis using tr ch ocr doc mm by (simp add: constructor_def)
qed

text \<open>At 700000 ms per call the chat and the OCR request time out and the translation
  returns.\<close>

theorem timeout_tiers_witness:
  "isConnected connected_client \<and> url_truthy (stationURL connected_client) \<and>
   (\<forall>n r. latency (slow_net n r) = 700000) \<and>
   translationTimeout connected_client = 900000 \<and>
   timeout connected_client = 600000 \<and>
   fst (translate slow_net ''hello'' ''en'' ''ar'' ''general'' (connected_client, fresh_world)) = Inr (JObj []) \<and>
   fst (chatWithGemma slow_net ''hello'' (connected_client, fresh_world)) = Inl RequestTimeout \<and>
   fst (serverOCR slow_net photo_a ''en'' False (connected_client, fresh_world)) = Inl RequestTimeout"
proof -
  have conn: "isConnected connected_client" "url_truthy (stationURL connected_client)"
    by (simp_all add: eval_defs)
  have lat: "\<forall>n r. latency (slow_net n r) = 700000" by (simp add: slow_net_def)
  have v: "translationTimeout connected_client = 900000" "timeout connected_client = 600000"
    "visionTimeout connected_client = 600000"
    by (simp_all add: eval_defs)
  have tr: "fst (translate slow_net ''hello'' ''en'' ''ar'' ''general'' (connected_client, fresh_world)) = Inr (JObj [])"
    by (simp add: eval2_defs)
  show ?thesis
    using timeout_tiers [OF conn lat, of "''hello''" "''en''" "''ar''" "''general''" fresh_world "''hello''" photo_a "''en''"]
      conn lat v tr by simp
qed

subsection \<open>Discovery\<close>

lemma testConnection_spec:
  assumes "testConnection net url w = (b, w1)"
  shows "b = probe_ready net (length (fetch_log w)) url \<and>
         fetch_log w1 = fetch_log w @ [status_request url] \<and>
         localStorage_aiStationURL w1 = localStorage_aiStationURL w"
proof (cases "net (length (fetch_log w)) (status_request url)")
  case (NetworkFailure t)
  with assms show ?thesis
    by (auto simp: testConnection_def probe_ready_def fetch_def Let_def split: if_splits)
next
  case (Responds t st body)
  show ?thesis
  proof (cases body)
    case None
    with Responds assms show ?thesis
      by (auto simp: testConnection_def probe_ready_def fetch_def Let_def split: if_splits)
  next
    case (Some data)
    with Responds assms show ?thesis
      by (cases data)
         (auto simp: testConnection_def probe_ready_def fetch_def Let_def
               split: if_splits option.splits json.splits)
  qed
qed

lemma updateCapabilities_spec:
  assumes "updateCapabilities net (c, w) = (c1, w1)"
  shows "c1 = c\<lparr>capabilities := capabilities c1\<rparr> \<and>
         fetch_log w1 = fetch_log w @ [status_request (template (stationURL c))] \<and>
         localStorage_aiStationURL w1 = localStorage_aiStationURL w"
  using assms
  by (auto simp: updateCapabilities_def fetch_def Let_def
           split: fetch_outcome.splits option.splits sum.splits)


lemma scan_spec:
  assumes "scan net ips (c, w) = (found, c1, w1)"
  shows "(found \<longrightarrow>
           (\<exists>k<length ips.
              (\<forall>j<k. \<not> probe_ready net (length (fetch_log w) + j) (''http://'' @ ips ! j)) \<and>
              probe_ready net (length (fetch_log w) + k) (''http://'' @ ips ! k) \<and>
              c1 = c\<lparr>stationURL := Some (''http://'' @ ips ! k), isConnected := True,
                      capabilities := capabilities c1\<rparr> \<and>
              localStorage_aiStationURL w1 = Some (''http://'' @ ips ! k) \<and>
              fetch_log w1 =
                fetch_log w @ map (\<lambda>ip. status_request (''http://'' @ ip)) (take (Suc k) ips)
                  @ [status_request (''http://'' @ ips ! k)])) \<and>
         (\<not> found \<longrightarrow>
           (\<forall>j<length ips. \<not> probe_ready net (length (fetch_log w) + j) (''http://'' @ ips ! j)) \<and>
           c1 = c \<and>
           localStorage_aiStationURL w1 = localStorage_aiStationURL w \<and>
           fetch_log w1 = fetch_log w @ map (\<lambda>ip. status_request (''http://'' @ ip)) ips)"
  using assms
proof (induction ips arbitrary: w)
  case Nil
  then show ?case by simp
next
  case (Cons ip ips)
  obtain b w' where tc: "testConnection net (''http://'' @ ip) w = (b, w')"
    by (cases "testConnection net (''http://'' @ ip) w")
  note t = testConnection_spec [OF tc]
  show ?case
  proof (cases b)
    case True
    obtain c2 w2 where uc:
      "updateCapabilities net
         (c\<lparr>stationURL := Some (''http://'' @ ip), isConnected := True\<rparr>,
          w'\<lparr>localStorage_aiStationURL := Some (''http://'' @ ip)\<rparr>) = (c2, w2)"
      by (cases "updateCapabilities net
         (c\<lparr>stationURL := Some (''http://'' @ ip), isConnected := True\<rparr>,
          w'\<lparr>localStorage_aiStationURL := Some (''http://'' @ ip)\<rparr>)")
    note u = updateCapabilities_spec [OF uc]
    from Cons.prems tc True uc have res: "found" "c1 = c2" "w1 = w2"
      by (simp_all add: Let_def)
    have "c1 = c\<lparr>stationURL := Some (''http://'' @ ip), isConnected := True,
                   capabilities := capabilities c1\<rparr>"
      using u res by simp
    moreover have "fetch_log w1 = fetch_log w @ [status_request (''http://'' @ ip)]
                     @ [status_request (''http://'' @ ip)]"
      using u t res by simp
    moreover have "localStorage_aiStationURL w1 = Some (''http://'' @ ip)"
      using u res by simp
    moreover have "probe_ready net (length (fetch_log w)) (''http://'' @ ip)"
      using t True by simp
    ultimately show ?thesis using res(1)
      by (intro conjI impI exI [of _ 0]) simp_all
  next
    case False
    with Cons.prems tc have rec: "scan net ips (c, w') = (found, c1, w1)"
      by (simp add: Let_def)
    have len: "length (fetch_log w') = Suc (length (fetch_log w))" using t by simp
    have nb: "\<not> probe_ready net (length (fetch_log w)) (''http://'' @ ip)" using t False by simp
    note ih = Cons.IH [OF rec, unfolded len]
    show ?thesis
    proof (cases found)
      case True
      with ih obtain k where k: "k < length ips"
        "\<forall>j<k. \<not> probe_ready net (Suc (length (fetch_log w)) + j) (''http://'' @ ips ! j)"
        "probe_ready net (Suc (length (fetch_log w)) + k) (''http://'' @ ips ! k)"
        "c1 = c\<lparr>stationURL := Some (''http://'' @ ips ! k), isConnected := True,
                   capabilities := capabilities c1\<rparr>"
        "localStorage_aiStationURL w1 = Some (''http://'' @ ips ! k)"
        "fetch_log w1 =
           fetch_log w' @ map (\<lambda>ip. status_request (''http://'' @ ip)) (take (Suc k) ips)
             @ [status_request (''http://'' @ ips ! k)]"
        by blast
      have "\<forall>j<Suc k. \<not> probe_ready net (length (fetch_log w) + j) (''http://'' @ (ip # ips) ! j)"
        using k(2) nb by (auto simp: less_Suc_eq_0_disj)
      then show ?thesis using True k t
        by (intro conjI impI exI [of _ "Suc k"]) simp_all
    next
      case False
      with ih have a: "\<forall>j<length ips. \<not> probe_ready net (Suc (length (fetch_log w)) + j) (''http://'' @ ips ! j)"
        "c1 = c" "localStorage_aiStationURL w1 = localStorage_aiStationURL w'"
        "fetch_log w1 = fetch_log w' @ map (\<lambda>ip. status_request (''http://'' @ ip)) ips"
        by blast+
      have "\<forall>j<length (ip # ips). \<not> probe_ready net (length (fetch_log w) + j) (''http://'' @ (ip # ips) ! j)"
        using a(1) nb by (auto simp: less_Suc_eq_0_disj)
      then show ?thesis using False a t by simp
    qed
  qed
qed


lemma first_ready_at_iff:
  "first_ready_at net n us k =
     (k < length us \<and> probe_ready net (n + k) (us ! k) \<and>
      (\<forall>j<k. \<not> probe_ready net (n + j) (us ! j)))"
  by (auto simp: first_ready_at_def list_all_iff)

lemma none_ready_iff:
  "none_ready net n us = (\<forall>j<length us. \<not> probe_ready net (n + j) (us ! j))"
  by (auto simp: none_ready_def list_all_iff)

lemma first_ready_at_append:
  "first_ready_at net n us k \<Longrightarrow> first_ready_at net n (us @ vs) k"
  by (auto simp: first_ready_at_iff nth_append)

lemma none_then_first:
  assumes "none_ready net n us" and "first_ready_at net (n + length us) vs k"
  shows "first_ready_at net n (us @ vs) (length us + k)"
proof -
  have "\<not> probe_ready net (n + j) ((us @ vs) ! j)" if "j < length us + k" for j
  proof (cases "j < length us")
    case True
    with assms(1) show ?thesis by (simp add: none_ready_iff nth_append)
  next
    case False
    then have "j - length us < k" using that by simp
    with assms(2) have "\<not> probe_ready net (n + length us + (j - length us)) (vs ! (j - length us))"
      by (simp add: first_ready_at_iff)
    with False show ?thesis by (simp add: nth_append)
  qed
  with assms(2) show ?thesis
    by (simp add: first_ready_at_iff nth_append add.assoc)
qed

lemma none_then_none:
  assumes "none_ready net n us" and "none_ready net (n + length us) vs"
  shows "none_ready net n (us @ vs)"
  unfolding none_ready_iff
proof (intro allI impI)
  fix j assume "j < length (us @ vs)"
  show "\<not> probe_ready net (n + j) ((us @ vs) ! j)"
  proof (cases "j < length us")
    case True
    with assms(1) show ?thesis by (simp add: none_ready_iff nth_append)
  next
    case False
    then have "j - length us < length vs" using \<open>j < length (us @ vs)\<close> by simp
    with assms(2) have "\<not> probe_ready net (n + length us + (j - length us)) (vs ! (j - length us))"
      by (simp add: none_ready_iff)
    with False show ?thesis by (simp add: nth_append)
  qed
qed


lemma scan_phase:
  assumes "scan net ips (c, w) = (found, c1, w1)"
    and "us = map (\<lambda>ip. ''http://'' @ ip) ips"
  shows "(found \<longrightarrow>
           (\<exists>k. first_ready_at net (length (fetch_log w)) us k \<and>
              c1 = c\<lparr>stationURL := Some (us ! k), isConnected := True,
                      capabilities := capabilities c1\<rparr> \<and>
              localStorage_aiStationURL w1 = Some (us ! k) \<and>
              fetch_log w1 =
                fetch_log w @ map status_request (take (Suc k) us) @ [status_request (us ! k)])) \<and>
         (\<not> found \<longrightarrow>
           none_ready net (length (fetch_log w)) us \<and> c1 = c \<and>
           localStorage_aiStationURL w1 = localStorage_aiStationURL w \<and>
           fetch_log w1 = fetch_log w @ map status_request us)"
proof (cases found)
  case True
  with scan_spec [OF assms(1)] obtain k where k: "k < length ips"
    "\<forall>j<k. \<not> probe_ready net (length (fetch_log w) + j) (''http://'' @ ips ! j)"
    "probe_ready net (length (fetch_log w) + k) (''http://'' @ ips ! k)"
    "c1 = c\<lparr>stationURL := Some (''http://'' @ ips ! k), isConnected := True,
               capabilities := capabilities c1\<rparr>"
    "localStorage_aiStationURL w1 = Some (''http://'' @ ips ! k)"
    "fetch_log w1 =
       fetch_log w @ map (\<lambda>ip. status_request (''http://'' @ ip)) (take (Suc k) ips)
         @ [status_request (''http://'' @ ips ! k)]"
    by blast
  have "first_ready_at net (length (fetch_log w)) us k"
    using k(1,2,3) by (simp add: first_ready_at_iff assms(2))
  moreover have "us ! k = ''http://'' @ ips ! k" using k(1) by (simp add: assms(2))
  moreover have "map status_request (take (Suc k) us) =
                 map (\<lambda>ip. status_request (''http://'' @ ip)) (take (Suc k) ips)"
    by (simp add: assms(2) take_map comp_def)
  ultimately show ?thesis using True k(4,5,6) by (intro conjI impI exI [of _ k]) simp_all
next
  case False
  with scan_spec [OF assms(1)] show ?thesis
    by (simp add: none_ready_iff assms(2) comp_def)
qed

lemma trySaved_phase:
  assumes "trySaved net (c, w) = (found, c1, w1)"
    and "us = (case localStorage_aiStationURL w of
                 None \<Rightarrow> []
               | Some savedURL \<Rightarrow> if savedURL = [] then [] else [savedURL])"
  shows "(found \<longrightarrow>
           first_ready_at net (length (fetch_log w)) us 0 \<and>
           c1 = c\<lparr>stationURL := Some (us ! 0), isConnected := True,
                   capabilities := capabilities c1\<rparr> \<and>
           localStorage_aiStationURL w1 = Some (us ! 0) \<and>
           fetch_log w1 = fetch_log w @ map status_request (take (Suc 0) us) @ [status_request (us ! 0)]) \<and>
         (\<not> found \<longrightarrow>
           none_ready net (length (fetch_log w)) us \<and> c1 = c \<and>
           localStorage_aiStationURL w1 = localStorage_aiStationURL w \<and>
           fetch_log w1 = fetch_log w @ map status_request us)"
proof (cases "localStorage_aiStationURL w")
  case None
  with assms show ?thesis by (simp add: trySaved_def none_ready_iff)
next
  case (Some savedURL)
  show ?thesis
  proof (cases "savedURL = []")
    case True
    with Some assms show ?thesis by (simp add: trySaved_def none_ready_iff)
  next
    case False
    obtain b w' where tc: "testConnection net savedURL w = (b, w')"
      by (cases "testConnection net savedURL w")
    note t = testConnection_spec [OF tc]
    have us: "us = [savedURL]" using Some False assms(2) by simp
    show ?thesis
    proof (cases b)
      case True
      obtain c2 w2 where uc:
        "updateCapabilities net (c\<lparr>stationURL := Some savedURL, isConnected := True\<rparr>, w') = (c2, w2)"
        by (cases "updateCapabilities net (c\<lparr>stationURL := Some savedURL, isConnected := True\<rparr>, w')")
      note u = updateCapabilities_spec [OF uc]
      from assms(1) Some False tc True uc have res: "found" "c1 = c2" "w1 = w2"
        by (simp_all add: trySaved_def)
      have "c1 = c\<lparr>stationURL := Some savedURL, isConnected := True, capabilities := capabilities c1\<rparr>"
        using u res by simp
      moreover have "fetch_log w1 = fetch_log w @ [status_request savedURL] @ [status_request savedURL]"
        using u t res by simp
      moreover have "localStorage_aiStationURL w1 = Some savedURL"
        using u t res Some by simp
      moreover have "first_ready_at net (length (fetch_log w)) us 0"
        using t True by (simp add: first_ready_at_iff us)
      ultimately show ?thesis using res(1) by (simp add: us)
    next
      case b: False
      from assms(1) Some False tc b have res: "\<not> found" "c1 = c" "w1 = w'"
        by (simp_all add: trySaved_def)
      then show ?thesis using t b by (simp add: us none_ready_iff)
    qed
  qed
qed


lemma adopt_in_prefix:
  assumes "first_ready_at net n us k"
    and "c1 = c\<lparr>stationURL := Some (us ! k), isConnected := True, capabilities := capabilities c1\<rparr>"
    and "ls = Some (us ! k)"
    and "lg = pre @ map status_request (take (Suc k) us) @ [status_request (us ! k)]"
  shows "first_ready_at net n (us @ vs) k \<and>
         c1 = c\<lparr>stationURL := Some ((us @ vs) ! k), isConnected := True,
                 capabilities := capabilities c1\<rparr> \<and>
         ls = Some ((us @ vs) ! k) \<and>
         lg = pre @ map status_request (take (Suc k) (us @ vs)) @ [status_request ((us @ vs) ! k)]"
proof -
  have k: "k < length us" using assms(1) by (simp add: first_ready_at_iff)
  then have "(us @ vs) ! k = us ! k" "take (Suc k) (us @ vs) = take (Suc k) us"
    by (simp_all add: nth_append)
  with assms first_ready_at_append [OF assms(1), of vs] show ?thesis by simp
qed

lemma adopt_after_prefix:
  assumes "none_ready net n us"
    and "first_ready_at net (n + length us) vs k"
    and "c1 = c\<lparr>stationURL := Some (vs ! k), isConnected := True, capabilities := capabilities c1\<rparr>"
    and "ls = Some (vs ! k)"
    and "lg = (pre @ map status_request us) @ map status_request (take (Suc k) vs) @ [status_request (vs ! k)]"
  shows "first_ready_at net n (us @ vs) (length us + k) \<and>
         c1 = c\<lparr>stationURL := Some ((us @ vs) ! (length us + k)), isConnected := True,
                 capabilities := capabilities c1\<rparr> \<and>
         ls = Some ((us @ vs) ! (length us + k)) \<and>
         lg = pre @ map status_request (take (Suc (length us + k)) (us @ vs))
                @ [status_request ((us @ vs) ! (length us + k))]"
proof -
  have "(us @ vs) ! (length us + k) = vs ! k" by simp
  moreover have "take (Suc (length us + k)) (us @ vs) = us @ take (Suc k) vs" by simp
  ultimately show ?thesis using assms none_then_first [OF assms(1,2)] by simp
qed

lemma detectStation_spec:
  assumes "detectStation net (c, w) = (found, c1, w1)"
  shows "found = (\<not> none_ready net (length (fetch_log w)) (candidates c w)) \<and>
         (found \<longrightarrow>
           (\<exists>k. first_ready_at net (length (fetch_log w)) (candidates c w) k \<and>
              c1 = c\<lparr>stationURL := Some (candidates c w ! k), isConnected := True,
                      capabilities := capabilities c1\<rparr> \<and>
              localStorage_aiStationURL w1 = Some (candidates c w ! k) \<and>
              fetch_log w1 =
                fetch_log w @ map status_request (take (Suc k) (candidates c w))
                  @ [status_request (candidates c w ! k)])) \<and>
         (\<not> found \<longrightarrow>
           c1 = c\<lparr>isConnected := False\<rparr> \<and>
           localStorage_aiStationURL w1 = localStorage_aiStationURL w \<and>
           fetch_log w1 = fetch_log w @ map status_request (candidates c w))"
proof -
  define S where "S = (case localStorage_aiStationURL w of
                         None \<Rightarrow> []
                       | Some savedURL \<Rightarrow> if savedURL = [] then [] else [savedURL])"
  define A where "A = map (\<lambda>ip. ''http://'' @ ip) (commonIPs c)"
  define B where "B = map (\<lambda>name. ''http://'' @ name) mdnsNames"
  define n where "n = length (fetch_log w)"
  have cands: "candidates c w = S @ A @ B" by (simp add: candidates_def S_def A_def B_def)
  obtain f0 c0 w0 where ts: "trySaved net (c, w) = (f0, c0, w0)"
    by (cases "trySaved net (c, w)") auto
  note p0 = trySaved_phase [OF ts S_def, folded n_def]
  have main:
    "(found \<longrightarrow>
       (\<exists>k. first_ready_at net n (S @ A @ B) k \<and>
          c1 = c\<lparr>stationURL := Some ((S @ A @ B) ! k), isConnected := True,
                  capabilities := capabilities c1\<rparr> \<and>
          localStorage_aiStationURL w1 = Some ((S @ A @ B) ! k) \<and>
          fetch_log w1 =
            fetch_log w @ map status_request (take (Suc k) (S @ A @ B))
              @ [status_request ((S @ A @ B) ! k)])) \<and>
     (\<not> found \<longrightarrow>
       none_ready net n (S @ A @ B) \<and>
       c1 = c\<lparr>isConnected := False\<rparr> \<and>
       localStorage_aiStationURL w1 = localStorage_aiStationURL w \<and>
       fetch_log w1 = fetch_log w @ map status_request (S @ A @ B))"
  proof (cases f0)
    case True
    with assms ts have res: "found" "c1 = c0" "w1 = w0" by (simp_all add: detectStation_def)
    from p0 True res have
      "first_ready_at net n S 0"
      "c1 = c\<lparr>stationURL := Some (S ! 0), isConnected := True, capabilities := capabilities c1\<rparr>"
      "localStorage_aiStationURL w1 = Some (S ! 0)"
      "fetch_log w1 = fetch_log w @ map status_request (take (Suc 0) S) @ [status_request (S ! 0)]"
      by simp_all
    from adopt_in_prefix [OF this, of "A @ B"] res(1) show ?thesis by blast
  next
    case f0: False
    with p0 have s0: "none_ready net n S" "c0 = c"
      "localStorage_aiStationURL w0 = localStorage_aiStationURL w"
      "fetch_log w0 = fetch_log w @ map status_request S"
      by simp_all
    have n0: "length (fetch_log w0) = n + length S" using s0(4) by (simp add: n_def)
    obtain f1 c1' w1' where sa: "scan net (commonIPs c) (c, w0) = (f1, c1', w1')"
      by (cases "scan net (commonIPs c) (c, w0)") auto
    note p1 = scan_phase [OF sa A_def, unfolded n0]
    show ?thesis
    proof (cases f1)
      case True
      with assms ts f0 sa s0(2) have res: "found" "c1 = c1'" "w1 = w1'"
        by (simp_all add: detectStation_def)
      from p1 True res obtain k where k:
        "first_ready_at net (n + length S) A k"
        "c1 = c\<lparr>stationURL := Some (A ! k), isConnected := True, capabilities := capabilities c1\<rparr>"
        "localStorage_aiStationURL w1 = Some (A ! k)"
        "fetch_log w1 = fetch_log w0 @ map status_request (take (Suc k) A) @ [status_request (A ! k)]"
        by blast
      have lg: "fetch_log w1 = (fetch_log w @ map status_request S)
                  @ map status_request (take (Suc k) A) @ [status_request (A ! k)]"
        using k(4) s0(4) by simp
      note a = adopt_after_prefix [OF s0(1) k(1) k(2) k(3) lg]
      from adopt_in_prefix [of net n "S @ A" "length S + k" c1 c "localStorage_aiStationURL w1"
            "fetch_log w1" "fetch_log w" B] a res(1)
      show ?thesis by (intro conjI impI exI [of _ "length S + k"]) simp_all
    next
      case f1: False
      with p1 have s1: "none_ready net (n + length S) A" "c1' = c"
        "localStorage_aiStationURL w1' = localStorage_aiStationURL w0"
        "fetch_log w1' = fetch_log w0 @ map status_request A"
        by simp_all
      have nSA: "none_ready net n (S @ A)" using none_then_none [OF s0(1) s1(1)] .
      have lg1: "fetch_log w1' = fetch_log w @ map status_request (S @ A)"
        using s1(4) s0(4) by simp
      have n1: "length (fetch_log w1') = n + length (S @ A)" using lg1 by (simp add: n_def)
      obtain f2 c2 w2 where sb: "scan net mdnsNames (c, w1') = (f2, c2, w2)"
        by (cases "scan net mdnsNames (c, w1')") auto
      note p2 = scan_phase [OF sb B_def, unfolded n1]
      show ?thesis
      proof (cases f2)
        case True
        with assms ts f0 sa f1 sb s0(2) s1(2) have res: "found" "c1 = c2" "w1 = w2"
          by (simp_all add: detectStation_def)
        from p2 True res obtain k where k:
          "first_ready_at net (n + length (S @ A)) B k"
          "c1 = c\<lparr>stationURL := Some (B ! k), isConnected := True, capabilities := capabilities c1\<rparr>"
          "localStorage_aiStationURL w1 = Some (B ! k)"
          "fetch_log w1 = fetch_log w1' @ map status_request (take (Suc k) B) @ [status_request (B ! k)]"
          by blast
        have lg: "fetch_log w1 = (fetch_log w @ map status_request (S @ A))
                  @ map status_request (take (Suc k) B) @ [status_request (B ! k)]"
          using k(4) lg1 by simp
        from adopt_after_prefix [OF nSA k(1) k(2) k(3) lg] res(1)
        show ?thesis by (intro conjI impI exI [of _ "length (S @ A) + k"]) simp_all
      next
        case f2: False
        with assms ts f0 sa f1 sb s0(2) s1(2) have res: "\<not> found" "c1 = c2\<lparr>isConnected := False\<rparr>" "w1 = w2"
          by (simp_all add: detectStation_def)
        from p2 f2 have s2: "none_ready net (n + length (S @ A)) B" "c2 = c"
          "localStorage_aiStationURL w2 = localStorage_aiStationURL w1'"
          "fetch_log w2 = fetch_log w1' @ map status_request B"
          by simp_all
        have "none_ready net n ((S @ A) @ B)" using none_then_none [OF nSA s2(1)] .
        then show ?thesis using res s2 s1 s0 lg1 by simp
      qed
    qed
  qed
  have excl: "\<not> none_ready net n us" if "first_ready_at net n us k" for us k
    using that by (auto simp: first_ready_at_iff none_ready_iff)
  have "found = (\<not> none_ready net n (S @ A @ B))"
    using main excl by (cases found) auto
  with main show ?thesis by (simp add: cands n_def)
qed


text \<open>
  Claim C4 (station discovery). The candidates of a run are the saved address (when there is
  one), then the \<open>host:port\<close> list, then the name-service hostnames; they are probed in this
  order, one fetch each, with the 3-second probe. The run returns \<open>true\<close> exactly when some
  candidate's probe is ready. Then the first such candidate is adopted: it becomes
  \<open>stationURL\<close>, \<open>isConnected\<close> is set, it is the address held in \<open>localStorage\<close>, no later
  candidate is probed, and the only further request is the capabilities fetch to the adopted
  address. When no probe is ready the run returns \<open>false\<close> after probing every candidate, and
  neither \<open>stationURL\<close> nor \<open>localStorage\<close> changes; only \<open>isConnected\<close> is cleared.
\<close>

theorem detectStation_discovery:
  assumes "detectStation net (c, w) = (found, c1, w1)"
  shows "found = (\<not> none_ready net (length (fetch_log w)) (candidates c w)) \<and>
         (found \<longrightarrow>
           (\<exists>k. first_ready_at net (length (fetch_log w)) (candidates c w) k \<and>
              c1 = c\<lparr>stationURL := Some (candidates c w ! k), isConnected := True,
                      capabilities := capabilities c1\<rparr> \<and>
              localStorage_aiStationURL w1 = Some (candidates c w ! k) \<and>
              fetch_log w1 =
                fetch_log w @ map status_request (take (Suc k) (candidates c w))
                  @ [status_request (candidates c w ! k)])) \<and>
         (\<not> found \<longrightarrow>
           c1 = c\<lparr>isConnected := False\<rparr> \<and>
           localStorage_aiStationURL w1 = localStorage_aiStationURL w \<and>
           fetch_log w1 = fetch_log w @ map status_request (candidates c w))"
  using assms by (rule detectStation_spec)

text \<open>
  A client with a stale saved address finds the station as its fourth candidate; with the
  network down it probes all fourteen candidates and gives up.
\<close>

theorem detectStation_discovery_witness:
  "(case detectStation healthy_net (constructor None, returning_world) of
      (found, c1, w1) \<Rightarrow>
        found \<and> stationURL c1 = Some station \<and> isConnected c1 \<and>
        localStorage_aiStationURL w1 = Some station \<and>
        map req_url (fetch_log w1) =
          [''http://192.168.4.1:8080/api/status'', ''http://localhost:8080/api/status'',
           ''http://127.0.0.1:8080/api/status'', ''http://192.168.1.87:8080/api/status'',
           ''http://192.168.1.87:8080/api/status'']) \<and>
   \<not> none_ready healthy_net 0 (candidates (constructor None) returning_world) \<and>
   (case detectStation down_net (constructor None, returning_world) of
      (found, c1, w1) \<Rightarrow>
        \<not> found \<and> stationURL c1 = None \<and> \<not> isConnected c1 \<and>
        localStorage_aiStationURL w1 = Some ''http://192.168.4.1:8080'' \<and>
        length (fetch_log w1) = 14) \<and>
   none_ready down_net 0 (candidates (constructor None) returning_world)"
proof -
  obtain c1 w1 where
    ev1: "detectStation healthy_net (constructor None, returning_world) = (True, c1, w1)"
    and r1: "stationURL c1 = Some station" "isConnected c1"
      "localStorage_aiStationURL w1 = Some station"
      "map req_url (fetch_log w1) =
          [''http://192.168.4.1:8080/api/status'', ''http://localhost:8080/api/status'',
           ''http://127.0.0.1:8080/api/status'', ''http://192.168.1.87:8080/api/status'',
           ''http://192.168.1.87:8080/api/status'']"
    by (simp add: eval3_defs returning_world_def)
  obtain c2 w2 where
    ev2: "detectStation down_net (constructor None, returning_world) = (False, c2, w2)"
    and r2: "stationURL c2 = None" "\<not> isConnected c2"
      "localStorage_aiStationURL w2 = Some ''http://192.168.4.1:8080''"
      "length (fetch_log w2) = 14"
    by (simp add: eval3_defs returning_world_def)
  have l: "length (fetch_log returning_world) = 0" by (simp add: returning_world_def)
  have "\<not> none_ready healthy_net 0 (candidates (constructor None) returning_world)"
    using detectStation_discovery [OF ev1] by (simp add: l)
  moreover have "none_ready down_net 0 (candidates (constructor None) returning_world)"
    using detectStation_discovery [OF ev2] by (simp add: l)
  ultimately show ?thesis using r1 r2 by (simp add: ev1 ev2)
qed

subsection \<open>Failure handling of \<open>makeRequest\<close>\<close>

lemma candidates_nonempty: "u \<in> set (candidates c w) \<Longrightarrow> u \<noteq> []"
  by (auto simp: candidates_def split: option.splits if_splits)

lemma status_request_probe [simp]: "is_status_probe (status_request url)"
  by (simp add: is_status_probe_def status_request_def)

lemma api_request_no_probe [simp]: "\<not> is_status_probe (api_request c ep data opts)"
  by (simp add: is_status_probe_def api_request_def)

lemma detectStation_effect:
  assumes "detectStation net (c, w) = (found, c1, w1)"
  shows "isConnected c1 = found \<and> (found \<longrightarrow> url_truthy (stationURL c1)) \<and>
         (\<exists>probes. list_all is_status_probe probes \<and> fetch_log w1 = fetch_log w @ probes)"
proof (cases found)
  case True
  with detectStation_spec [OF assms] obtain k where k:
    "first_ready_at net (length (fetch_log w)) (candidates c w) k"
    "c1 = c\<lparr>stationURL := Some (candidates c w ! k), isConnected := True,
               capabilities := capabilities c1\<rparr>"
    "fetch_log w1 =
       fetch_log w @ map status_request (take (Suc k) (candidates c w))
         @ [status_request (candidates c w ! k)]"
    by blast
  have "k < length (candidates c w)" using k(1) by (simp add: first_ready_at_iff)
  then have "candidates c w ! k \<noteq> []" using candidates_nonempty [of "candidates c w ! k" c w] by simp
  moreover have "isConnected c1" "stationURL c1 = Some (candidates c w ! k)"
    by (subst k(2), simp)+
  moreover have "list_all is_status_probe
      (map status_request (take (Suc k) (candidates c w)) @ [status_request (candidates c w ! k)])"
    by (simp add: list_all_iff)
  ultimately show ?thesis using True k(3) by auto
next
  case False
  with detectStation_spec [OF assms] have
    "c1 = c\<lparr>isConnected := False\<rparr>"
    "fetch_log w1 = fetch_log w @ map status_request (candidates c w)"
    by simp_all
  moreover have "list_all is_status_probe (map status_request (candidates c w))"
    by (simp add: list_all_iff)
  ultimately show ?thesis using False by auto
qed

lemma sendRequest_effect:
  assumes "sendRequest net ep data opts (c, w) = (r, c1, w1)"
  shows "fetch_log w1 = fetch_log w @ [api_request c1 ep data opts] \<and>
         stationURL c1 = stationURL c \<and>
         r \<noteq> Inl NoStationAvailable \<and>
         (r = Inl RequestTimeout \<longrightarrow> c1 = c) \<and>
         (isl r \<and> r \<noteq> Inl RequestTimeout \<longrightarrow> c1 = c\<lparr>isConnected := False\<rparr>) \<and>
         (\<not> isl r \<longrightarrow> c1 = c)"
  using assms
  by (auto simp: sendRequest_def fetch_def Let_def api_request_def
           split: fetch_outcome.splits if_splits option.splits)

text \<open>
  Claim C2 (dispatcher failure handling), as the code has it, for a dispatch from any client
  state. A dispatch that ends in the timeout error leaves the station marked connected, and
  the next \<open>makeRequest\<close> is sent to the same address without discovery. A dispatch that ends
  in any other error (a network failure, a non-ok status, an unparsable body, a failed
  discovery) leaves \<open>isConnected\<close> false, so that the next \<open>makeRequest\<close> runs \<open>detectStation\<close>
  before it issues its call, and fails with \<open>No AI station available\<close> when discovery fails.
  Apart from the status probes of a discovery, a dispatch issues its API call once, and not
  at all when discovery fails: nothing is retried. From a connected client there is no
  probe; the dispatch ends in the timeout error exactly when the call has not settled
  before the timer of its class fires, and then the client is left as it was; it ends in a
  network failure exactly when the fetch fails before the timer fires; every error other
  than the timeout clears \<open>isConnected\<close> and changes nothing else.
\<close>

theorem makeRequest_failure_handling:
  assumes "makeRequest net ep data opts (c, w) = (r, c1, w1)"
  shows
   "(r = Inl RequestTimeout \<longrightarrow>
       isConnected c1 \<and> url_truthy (stationURL c1) \<and>
       makeRequest net2 ep2 data2 opts2 (c1, w1) = sendRequest net2 ep2 data2 opts2 (c1, w1)) \<and>
    (isl r \<and> r \<noteq> Inl RequestTimeout \<longrightarrow>
       \<not> isConnected c1 \<and>
       makeRequest net2 ep2 data2 opts2 (c1, w1) =
         (case detectStation net2 (c1, w1) of
            (False, c2, w2) \<Rightarrow> (Inl NoStationAvailable, c2, w2)
          | (True, c2, w2) \<Rightarrow> sendRequest net2 ep2 data2 opts2 (c2, w2))) \<and>
    (\<exists>probes. list_all is_status_probe probes \<and>
       fetch_log w1 =
         fetch_log w @ probes @
           (if r = Inl NoStationAvailable then [] else [api_request c1 ep data opts])) \<and>
    (isConnected c \<and> url_truthy (stationURL c) \<longrightarrow>
       fetch_log w1 = fetch_log w @ [api_request c ep data opts] \<and>
       ((r = Inl RequestTimeout) =
          (actualTimeout c ep opts \<le> latency (net (length (fetch_log w)) (api_request c ep data opts)))) \<and>
       ((r = Inl FetchFailed) =
          (\<exists>t. net (length (fetch_log w)) (api_request c ep data opts) = NetworkFailure t \<and>
               t < actualTimeout c ep opts)) \<and>
       (r = Inl RequestTimeout \<longrightarrow> c1 = c) \<and>
       (isl r \<and> r \<noteq> Inl RequestTimeout \<longrightarrow> c1 = c\<lparr>isConnected := False\<rparr>))"
proof -
  have general:
    "(r = Inl RequestTimeout \<longrightarrow> isConnected c1 \<and> url_truthy (stationURL c1)) \<and>
     (isl r \<and> r \<noteq> Inl RequestTimeout \<longrightarrow> \<not> isConnected c1) \<and>
     (\<exists>probes. list_all is_status_probe probes \<and>
       fetch_log w1 =
         fetch_log w @ probes @
           (if r = Inl NoStationAvailable then [] else [api_request c1 ep data opts]))"
  proof (cases "isConnected c \<and> url_truthy (stationURL c)")
    case True
    then have s: "sendRequest net ep data opts (c, w) = (r, c1, w1)"
      using assms by (simp add: makeRequest_def)
    note e = sendRequest_effect [OF s]
    have "list_all is_status_probe []" by simp
    moreover have "fetch_log w1 = fetch_log w @ [] @
           (if r = Inl NoStationAvailable then [] else [api_request c1 ep data opts])"
      using e by simp
    ultimately have "\<exists>probes. list_all is_status_probe probes \<and>
       fetch_log w1 =
         fetch_log w @ probes @
           (if r = Inl NoStationAvailable then [] else [api_request c1 ep data opts])"
      by blast
    moreover have "r = Inl RequestTimeout \<longrightarrow> isConnected c1 \<and> url_truthy (stationURL c1)"
      using e True by auto
    moreover have "isl r \<and> r \<noteq> Inl RequestTimeout \<longrightarrow> \<not> isConnected c1"
    proof
      assume "isl r \<and> r \<noteq> Inl RequestTimeout"
      with e have "c1 = c\<lparr>isConnected := False\<rparr>" by blast
      then show "\<not> isConnected c1" by (subst \<open>c1 = c\<lparr>isConnected := False\<rparr>\<close>) simp
    qed
    ultimately show ?thesis by blast
  next
    case False
    obtain found c0 w0 where d: "detectStation net (c, w) = (found, c0, w0)"
      by (cases "detectStation net (c, w)") auto
    from detectStation_effect [OF d] obtain probes where p:
      "isConnected c0 = found" "found \<longrightarrow> url_truthy (stationURL c0)"
      "list_all is_status_probe probes" "fetch_log w0 = fetch_log w @ probes"
      by blast
    show ?thesis
    proof (cases found)
      case found: False
      with assms False d have res: "r = Inl NoStationAvailable" "c1 = c0" "w1 = w0"
        by (auto simp: makeRequest_def)
      have "fetch_log w1 = fetch_log w @ probes @
           (if r = Inl NoStationAvailable then [] else [api_request c1 ep data opts])"
        using res p(4) by simp
      with p(3) have "\<exists>probes. list_all is_status_probe probes \<and>
         fetch_log w1 =
           fetch_log w @ probes @
             (if r = Inl NoStationAvailable then [] else [api_request c1 ep data opts])"
        by blast
      then show ?thesis using res p(1) found by simp
    next
      case found: True
      with assms False d have s: "sendRequest net ep data opts (c0, w0) = (r, c1, w1)"
        by (auto simp: makeRequest_def)
      note e = sendRequest_effect [OF s]
      have "fetch_log w1 = fetch_log w @ probes @
           (if r = Inl NoStationAvailable then [] else [api_request c1 ep data opts])"
        using e p(4) by simp
      with p(3) have "\<exists>probes. list_all is_status_probe probes \<and>
         fetch_log w1 =
           fetch_log w @ probes @
             (if r = Inl NoStationAvailable then [] else [api_request c1 ep data opts])"
        by blast
      moreover have "r = Inl RequestTimeout \<longrightarrow> isConnected c1 \<and> url_truthy (stationURL c1)"
        using e p(1,2) found by auto
      moreover have "isl r \<and> r \<noteq> Inl RequestTimeout \<longrightarrow> \<not> isConnected c1"
      proof
        assume "isl r \<and> r \<noteq> Inl RequestTimeout"
        with e have "c1 = c0\<lparr>isConnected := False\<rparr>" by blast
        then show "\<not> isConnected c1" by (subst \<open>c1 = c0\<lparr>isConnected := False\<rparr>\<close>) simp
      qed
      ultimately show ?thesis by blast
    qed
  qed
  have next_direct: "makeRequest net2 ep2 data2 opts2 (c1, w1) = sendRequest net2 ep2 data2 opts2 (c1, w1)"
    if "isConnected c1" "url_truthy (stationURL c1)"
    using that by (simp add: makeRequest_def)
  have next_discover: "makeRequest net2 ep2 data2 opts2 (c1, w1) =
         (case detectStation net2 (c1, w1) of
            (False, c2, w2) \<Rightarrow> (Inl NoStationAvailable, c2, w2)
          | (True, c2, w2) \<Rightarrow> sendRequest net2 ep2 data2 opts2 (c2, w2))"
    if "\<not> isConnected c1"
    using that by (simp add: makeRequest_def)
  have connected:
    "fetch_log w1 = fetch_log w @ [api_request c ep data opts] \<and>
       ((r = Inl RequestTimeout) =
          (actualTimeout c ep opts \<le> latency (net (length (fetch_log w)) (api_request c ep data opts)))) \<and>
       ((r = Inl FetchFailed) =
          (\<exists>t. net (length (fetch_log w)) (api_request c ep data opts) = NetworkFailure t \<and>
               t < actualTimeout c ep opts)) \<and>
       (r = Inl RequestTimeout \<longrightarrow> c1 = c) \<and>
       (isl r \<and> r \<noteq> Inl RequestTimeout \<longrightarrow> c1 = c\<lparr>isConnected := False\<rparr>)"
    if conn: "isConnected c \<and> url_truthy (stationURL c)"
  proof -
    have s: "sendRequest net ep data opts (c, w) = (r, c1, w1)"
      using assms conn by (simp add: makeRequest_connected)
    have log: "fetch_log w1 = fetch_log w @ [api_request c ep data opts]"
      using s by (rule sendRequest_log)
    have t: "(r = Inl RequestTimeout) =
         (actualTimeout c ep opts \<le> latency (net (length (fetch_log w)) (api_request c ep data opts)))"
      using sendRequest_timeout_iff [of net ep data opts c w] s by simp
    have f: "(r = Inl FetchFailed) =
         (\<exists>t. net (length (fetch_log w)) (api_request c ep data opts) = NetworkFailure t \<and>
              t < actualTimeout c ep opts)"
      using s by (auto simp: sendRequest_def fetch_def Let_def split: fetch_outcome.splits if_splits option.splits)
    show ?thesis using log t f sendRequest_effect [OF s] by blast
  qed
  show ?thesis using general next_direct next_discover connected by blast
qed


text \<open>
  From a connected client: the first call is dropped by the link, and the second one
  rediscovers the station (two dead candidates, then the station, then its capabilities)
  before it is sent; a call to the slow station times out and leaves the client as it was.
  From a fresh client: the busy station is discovered, the call times out, the client stays
  connected and its next call is sent directly; with the network down the thirteen
  candidates are probed and no call is issued.
\<close>

theorem makeRequest_failure_handling_witness:
  "isConnected connected_client \<and> url_truthy (stationURL connected_client) \<and>
   (case makeRequest flaky_net endpoints_chat hello no_options (connected_client, fresh_world) of
      (r, c1, w1) \<Rightarrow>
        r = Inl FetchFailed \<and> c1 = connected_client\<lparr>isConnected := False\<rparr> \<and>
        map req_url (fetch_log w1) = [station @ endpoints_chat] \<and>
        (case makeRequest flaky_net endpoints_chat hello no_options (c1, w1) of
           (r2, c2, w2) \<Rightarrow>
             r2 = Inr (JObj []) \<and> isConnected c2 \<and> stationURL c2 = Some station \<and>
             map req_url (fetch_log w2) =
               [station @ endpoints_chat,
                ''http://localhost:8080'' @ endpoints_status,
                ''http://127.0.0.1:8080'' @ endpoints_status,
                station @ endpoints_status,
                station @ endpoints_status,
                station @ endpoints_chat])) \<and>
   (case makeRequest slow_net endpoints_chat hello no_options (connected_client, fresh_world) of
      (r, c1, w1) \<Rightarrow>
        r = Inl RequestTimeout \<and> c1 = connected_client \<and>
        map req_url (fetch_log w1) = [station @ endpoints_chat]) \<and>
   \<not> isConnected (constructor None) \<and>
   (case makeRequest busy_net endpoints_chat hello no_options (constructor None, fresh_world) of
      (r, c1, w1) \<Rightarrow>
        r = Inl RequestTimeout \<and> isConnected c1 \<and> stationURL c1 = Some station \<and>
        map req_url (fetch_log w1) =
          [''http://localhost:8080'' @ endpoints_status,
           ''http://127.0.0.1:8080'' @ endpoints_status,
           station @ endpoints_status,
           station @ endpoints_status,
           station @ endpoints_chat] \<and>
        makeRequest busy_net endpoints_chat hello no_options (c1, w1) =
          sendRequest busy_net endpoints_chat hello no_options (c1, w1)) \<and>
   (case makeRequest down_net endpoints_chat hello no_options (constructor None, fresh_world) of
      (r, c1, w1) \<Rightarrow>
        r = Inl NoStationAvailable \<and> \<not> isConnected c1 \<and>
        length (fetch_log w1) = 13 \<and> list_all is_status_probe (fetch_log w1))"
proof -
  have conn: "isConnected connected_client \<and> url_truthy (stationURL connected_client)"
    by (simp add: eval_defs)
  have disc: "\<not> isConnected (constructor None)" by (simp add: constructor_def)
  obtain c3 w3 where
    ev3: "makeRequest slow_net endpoints_chat hello no_options (connected_client, fresh_world) =
           (Inl RequestTimeout, c3, w3)"
    and w3: "map req_url (fetch_log w3) = [station @ endpoints_chat]"
    by (simp add: eval3_defs)
  have c3: "c3 = connected_client"
    using makeRequest_failure_handling [OF ev3] conn by simp
  obtain c1 w1 where
    ev: "makeRequest flaky_net endpoints_chat hello no_options (connected_client, fresh_world) =
           (Inl FetchFailed, c1, w1)"
    and w1: "w1 = fresh_world\<lparr>now := 5, fetch_log := [api_request connected_client endpoints_chat hello no_options]\<rparr>"
    by (simp add: eval3_defs)
  have c1: "c1 = connected_client\<lparr>isConnected := False\<rparr>"
    using makeRequest_failure_handling [OF ev] conn by simp
  have second: "(case makeRequest flaky_net endpoints_chat hello no_options (c1, w1) of
           (r2, c2, w2) \<Rightarrow>
             r2 = Inr (JObj []) \<and> isConnected c2 \<and> stationURL c2 = Some station \<and>
             map req_url (fetch_log w2) =
               [station @ endpoints_chat,
                ''http://localhost:8080'' @ endpoints_status,
                ''http://127.0.0.1:8080'' @ endpoints_status,
                station @ endpoints_status,
                station @ endpoints_status,
                station @ endpoints_chat])"
    unfolding c1 w1 by (simp add: eval3_defs)
  have first_log: "map req_url (fetch_log w1) = [station @ endpoints_chat]"
    unfolding w1 by (simp add: eval3_defs)
  obtain c5 w5 where
    ev5: "makeRequest busy_net endpoints_chat hello no_options (constructor None, fresh_world) =
           (Inl RequestTimeout, c5, w5)"
    and r5: "stationURL c5 = Some station"
      "map req_url (fetch_log w5) =
          [''http://localhost:8080'' @ endpoints_status,
           ''http://127.0.0.1:8080'' @ endpoints_status,
           station @ endpoints_status,
           station @ endpoints_status,
           station @ endpoints_chat]"
    by (simp add: eval3_defs)
  have h5: "isConnected c5"
    "makeRequest busy_net endpoints_chat hello no_options (c5, w5) =
       sendRequest busy_net endpoints_chat hello no_options (c5, w5)"
    using makeRequest_failure_handling [OF ev5, of busy_net endpoints_chat hello no_options]
    by simp_all
  obtain c6 w6 where
    ev6: "makeRequest down_net endpoints_chat hello no_options (constructor None, fresh_world) =
           (Inl NoStationAvailable, c6, w6)"
    and r6: "length (fetch_log w6) = 13" "list_all is_status_probe (fetch_log w6)"
    by (simp add: eval3_defs is_status_probe_def)
  have h6: "\<not> isConnected c6"
    using makeRequest_failure_handling [OF ev6] by simp
  show ?thesis
    using conn disc c1 c3 w3 second first_log r5 h5 r6 h6
    by (simp add: ev ev3 ev5 ev6)
qed

text \<open>
  Claim C2 as stated fails for timeouts: a chat call that times out leaves the client
  connected, and the next call goes straight to the same address without any status probe.
\<close>

theorem makeRequest_timeout_keeps_station:
  "(case makeRequest slow_net endpoints_chat hello no_options (connected_client, fresh_world) of
      (r, c1, w1) \<Rightarrow>
        r = Inl RequestTimeout \<and> isConnected c1 \<and> c1 = connected_client \<and>
        (case makeRequest slow_net endpoints_chat hello no_options (c1, w1) of
           (r2, c2, w2) \<Rightarrow>
             map req_url (fetch_log w2) = [station @ endpoints_chat, station @ endpoints_chat]))"
  by (simp add: eval3_defs)

subsection \<open>Cache round trip\<close>

lemma sendRequest_success:
  assumes "sendRequest net ep data opts (c, w) = (Inr R, c1, w1)"
  shows "c1 = c \<and> fetch_log w1 = fetch_log w @ [api_request c ep data opts] \<and>
         (\<exists>t st. net (length (fetch_log w)) (api_request c ep data opts) = Responds t st (Some R))"
  using assms
  by (auto simp: sendRequest_def fetch_def Let_def
           split: fetch_outcome.splits if_splits option.splits)

lemma makeRequest_success:
  assumes "makeRequest net ep data opts (c, w) = (Inr R, c1, w1)"
  shows "\<exists>pre t st.
           fetch_log w1 = fetch_log w @ pre @ [api_request c1 ep data opts] \<and>
           net (length (fetch_log w) + length pre) (api_request c1 ep data opts) =
             Responds t st (Some R)"
proof (cases "isConnected c \<and> url_truthy (stationURL c)")
  case True
  then have "sendRequest net ep data opts (c, w) = (Inr R, c1, w1)"
    using assms by (simp add: makeRequest_def)
  from sendRequest_success [OF this] obtain t st where
    "c1 = c" "fetch_log w1 = fetch_log w @ [] @ [api_request c1 ep data opts]"
    "net (length (fetch_log w) + length ([] :: request list)) (api_request c1 ep data opts) =
       Responds t st (Some R)"
    by auto
  then show ?thesis by blast
next
  case False
  obtain found c0 w0 where d: "detectStation net (c, w) = (found, c0, w0)"
    by (cases "detectStation net (c, w)") auto
  from detectStation_effect [OF d] obtain probes where p:
    "fetch_log w0 = fetch_log w @ probes" by blast
  have found using assms False d by (cases found) (auto simp: makeRequest_def)
  with assms False d have "sendRequest net ep data opts (c0, w0) = (Inr R, c1, w1)"
    by (auto simp: makeRequest_def)
  from sendRequest_success [OF this] obtain t st where
    "c1 = c0" "fetch_log w1 = fetch_log w0 @ [api_request c1 ep data opts]"
    "net (length (fetch_log w0)) (api_request c1 ep data opts) = Responds t st (Some R)"
    by auto
  with p have "fetch_log w1 = fetch_log w @ probes @ [api_request c1 ep data opts]"
    "net (length (fetch_log w) + length probes) (api_request c1 ep data opts) =
       Responds t st (Some R)"
    by simp_all
  then show ?thesis by blast
qed

lemma api_request_cacheVisionResult [simp]:
  "api_request (cacheVisionResult k v c) ep data opts = api_request c ep data opts"
  by (simp add: api_request_def cacheVisionResult_def Let_def)

lemma map_of_has: "map_of m k = Some R \<Longrightarrow> map_has m k \<and> map_get m k = R"
  by (simp add: map_has_def map_get_def)

lemma map_of_has_not: "map_of m k = None \<Longrightarrow> \<not> map_has m k"
  by (simp add: map_has_def)

lemma serverOCR_lookup:
  assumes "map_of (visionCache c) (generateCacheKey ''ocr'' img aux) = Some R"
  shows "serverOCR net img aux True (c, w) = (Inr R, c, w)"
  using map_of_has [OF assms] by (simp add: serverOCR_def)

lemma serverOCR_miss:
  assumes "map_of (visionCache c) (generateCacheKey ''ocr'' img aux) = None"
    and "serverOCR net img aux True (c, w) = (Inr R, c1, w1)"
  shows "\<exists>pre t st.
           fetch_log w1 = fetch_log w @ pre @
             [api_request c1 endpoints_vision_ocr
                (JObj [(''image'', JStr img), (''language'', JStr aux),
                       (''timestamp'', JNum (int (now w)))]) no_options] \<and>
           net (length (fetch_log w) + length pre)
             (api_request c1 endpoints_vision_ocr
                (JObj [(''image'', JStr img), (''language'', JStr aux),
                       (''timestamp'', JNum (int (now w)))]) no_options) =
             Responds t st (Some R)"
proof -
  let ?d = "JObj [(''image'', JStr img), (''language'', JStr aux), (''timestamp'', JNum (int (now w)))]"
  from assms map_of_has_not [OF assms(1)] obtain c' where
    "makeRequest net endpoints_vision_ocr ?d no_options (c, w) = (Inr R, c', w1)"
    "c1 = cacheVisionResult (generateCacheKey ''ocr'' img aux) R c'"
    by (auto simp: serverOCR_def split: prod.splits sum.splits)
  with makeRequest_success [of net endpoints_vision_ocr ?d no_options c w R c' w1]
  show ?thesis by simp
qed


lemma analyzeDocument_stores:
  assumes "analyzeDocument net img aux True (c, w) = (Inr R, c1, w1)"
  shows "map_of (visionCache c1) (generateCacheKey ''document'' img aux) = Some R"
proof (cases "map_has (visionCache c) (generateCacheKey ''document'' img aux)")
  case True
  with assms show ?thesis by (auto simp: analyzeDocument_def map_has_def map_get_def)
next
  case False
  with assms show ?thesis
    by (auto simp: analyzeDocument_def cacheVisionResult_lookup split: prod.splits sum.splits)
qed

lemma analyzeDocument_lookup:
  assumes "map_of (visionCache c) (generateCacheKey ''document'' img aux) = Some R"
  shows "analyzeDocument net img aux True (c, w) = (Inr R, c, w)"
  using map_of_has [OF assms] by (simp add: analyzeDocument_def)

lemma analyzeDocument_miss:
  assumes "map_of (visionCache c) (generateCacheKey ''document'' img aux) = None"
    and "analyzeDocument net img aux True (c, w) = (Inr R, c1, w1)"
  shows "\<exists>pre t st.
           fetch_log w1 = fetch_log w @ pre @
             [api_request c1 endpoints_vision_document
                (JObj [(''image'', JStr img), (''document_type'', JStr aux),
                       (''timestamp'', JNum (int (now w)))]) no_options] \<and>
           net (length (fetch_log w) + length pre)
             (api_request c1 endpoints_vision_document
                (JObj [(''image'', JStr img), (''document_type'', JStr aux),
                       (''timestamp'', JNum (int (now w)))]) no_options) =
             Responds t st (Some R)"
proof -
  let ?d = "JObj [(''image'', JStr img), (''document_type'', JStr aux), (''timestamp'', JNum (int (now w)))]"
  from assms map_of_has_not [OF assms(1)] obtain c' where
    "makeRequest net endpoints_vision_document ?d no_options (c, w) = (Inr R, c', w1)"
    "c1 = cacheVisionResult (generateCacheKey ''document'' img aux) R c'"
    by (auto simp: analyzeDocument_def split: prod.splits sum.splits)
  with makeRequest_success [of net endpoints_vision_document ?d no_options c w R c' w1]
  show ?thesis by simp
qed

lemma analyzeMedicalImage_stores:
  assumes "analyzeMedicalImage net img aux True (c, w) = (Inr R, c1, w1)"
  shows "map_of (visionCache c1) (generateCacheKey ''medical'' img aux) = Some R"
proof (cases "map_has (visionCache c) (generateCacheKey ''medical'' img aux)")
  case True
  with assms show ?thesis by (auto simp: analyzeMedicalImage_def map_has_def map_get_def)
next
  case False
  with assms show ?thesis
    by (auto simp: analyzeMedicalImage_def cacheVisionResult_lookup split: prod.splits sum.splits)
qed

lemma analyzeMedicalImage_lookup:
  assumes "map_of (visionCache c) (generateCacheKey ''medical'' img aux) = Some R"
  shows "analyzeMedicalImage net img aux True (c, w) = (Inr R, c, w)"
  using map_of_has [OF assms] by (simp add: analyzeMedicalImage_def)

lemma analyzeMedicalImage_miss:
  assumes "map_of (visionCache c) (generateCacheKey ''medical'' img aux) = None"
    and "analyzeMedicalImage net img aux True (c, w) = (Inr R, c1, w1)"
  shows "\<exists>pre t st.
           fetch_log w1 = fetch_log w @ pre @
             [api_request c1 endpoints_vision_medical
                (JObj [(''image'', JStr img), (''symptoms'', JStr aux),
                       (''timestamp'', JNum (int (now w)))]) no_options] \<and>
           net (length (fetch_log w) + length pre)
             (api_request c1 endpoints_vision_medical
                (JObj [(''image'', JStr img), (''symptoms'', JStr aux),
                       (''timestamp'', JNum (int (now w)))]) no_options) =
             Responds t st (Some R)"
proof -
  let ?d = "JObj [(''image'', JStr img), (''symptoms'', JStr aux), (''timestamp'', JNum (int (now w)))]"
  from assms map_of_has_not [OF assms(1)] obtain c' where
    "makeRequest net endpoints_vision_medical ?d no_options (c, w) = (Inr R, c', w1)"
    "c1 = cacheVisionResult (generateCacheKey ''medical'' img aux) R c'"
    by (auto simp: analyzeMedicalImage_def split: prod.splits sum.splits)
  with makeRequest_success [of net endpoints_vision_medical ?d no_options c w R c' w1]
  show ?thesis by simp
qed

lemma generateCacheKey_nonempty: "generateCacheKey kind img aux \<noteq> []"
  by (simp add: generateCacheKey_def)

lemma multimodalChat_stores:
  assumes "multimodalChat net aux (Some img) True (c, w) = (Inr R, c1, w1)" and "img \<noteq> []"
  shows "map_of (visionCache c1) (generateCacheKey ''chat'' img aux) = Some R"
proof (cases "map_has (visionCache c) (generateCacheKey ''chat'' img aux)")
  case True
  with assms show ?thesis by (auto simp: multimodalChat_def map_has_def map_get_def)
next
  case False
  with assms generateCacheKey_nonempty [of "''chat''" img aux] show ?thesis
    by (auto simp: multimodalChat_def Let_def cacheVisionResult_lookup split: prod.splits sum.splits)
qed

lemma multimodalChat_lookup:
  assumes "map_of (visionCache c) (generateCacheKey ''chat'' img aux) = Some R" and "img \<noteq> []"
  shows "multimodalChat net aux (Some img) True (c, w) = (Inr R, c, w)"
  using map_of_has [OF assms(1)] assms(2) by (simp add: multimodalChat_def)

lemma multimodalChat_miss:
  assumes "map_of (visionCache c) (generateCacheKey ''chat'' img aux) = None"
    and "multimodalChat net aux (Some img) True (c, w) = (Inr R, c1, w1)" and "img \<noteq> []"
  shows "\<exists>pre t st.
           fetch_log w1 = fetch_log w @ pre @
             [api_request c1 endpoints_multimodal_chat
                (JObj [(''text'', JStr aux), (''image'', JStr img),
                       (''timestamp'', JNum (int (now w)))]) no_options] \<and>
           net (length (fetch_log w) + length pre)
             (api_request c1 endpoints_multimodal_chat
                (JObj [(''text'', JStr aux), (''image'', JStr img),
                       (''timestamp'', JNum (int (now w)))]) no_options) =
             Responds t st (Some R)"
proof -
  let ?d = "JObj [(''text'', JStr aux), (''image'', JStr img), (''timestamp'', JNum (int (now w)))]"
  from assms map_of_has_not [OF assms(1)] generateCacheKey_nonempty [of "''chat''" img aux]
  obtain c' where
    "makeRequest net endpoints_multimodal_chat ?d no_options (c, w) = (Inr R, c', w1)"
    "c1 = cacheVisionResult (generateCacheKey ''chat'' img aux) R c'"
    by (auto simp: multimodalChat_def Let_def split: prod.splits sum.splits)
  with makeRequest_success [of net endpoints_multimodal_chat ?d no_options c w R c' w1]
  show ?thesis by simp
qed

lemma generateCacheKey_aux:
  "(generateCacheKey kind img aux = generateCacheKey kind img aux') = (hashString aux = hashString aux')"
  by (simp add: generateCacheKey_def)

lemma generateCacheKey_image:
  "(generateCacheKey kind img aux = generateCacheKey kind img' aux) = (hashString img = hashString img')"
  by (simp add: generateCacheKey_def)

text \<open>
  Claim C7 (cache round trip). For each of \<open>serverOCR\<close>, \<open>analyzeDocument\<close>, \<open>analyzeMedicalImage\<close>
  and \<open>multimodalChat\<close> with an image, called with caching enabled, and the key \<open>K\<close> that
  \<open>generateCacheKey\<close> derives from (kind, image, auxiliary parameter):

  \<^item> store: when the call returns \<open>R\<close>, the cache of the resulting client maps \<open>K\<close> to \<open>R\<close>;
  \<^item> lookup: in every client state whose cache maps \<open>K\<close> to \<open>R\<close> (the entry has not been evicted),
    under any network, the call returns \<open>R\<close> and leaves the client and the browser untouched, so
    no request is issued;
  \<^item> miss: when the cache has no entry under \<open>K\<close> and the call returns \<open>R\<close>, the last request
    issued is the API request that carries the image and the auxiliary parameter, and \<open>R\<close> is
    the body the station answered to it;
  \<^item> key: the key is a function of the triple alone, and two triples that differ in the image
    only, or in the auxiliary parameter only, have the same key exactly when the two images,
    or the two parameters, have the same \<open>hashString\<close>.
\<close>

theorem vision_cache_roundtrip:
  "((generateCacheKey kind img aux = generateCacheKey kind img aux') =
      (hashString aux = hashString aux')) \<and>
   ((generateCacheKey kind img aux = generateCacheKey kind img' aux) =
      (hashString img = hashString img')) \<and>
   (serverOCR net img aux True (c, w) = (Inr R, c', w') \<longrightarrow>
      map_of (visionCache c') (generateCacheKey ''ocr'' img aux) = Some R) \<and>
   (map_of (visionCache d) (generateCacheKey ''ocr'' img aux) = Some R \<longrightarrow>
      serverOCR net' img aux True (d, v) = (Inr R, d, v)) \<and>
   (map_of (visionCache c) (generateCacheKey ''ocr'' img aux) = None \<and>
    serverOCR net img aux True (c, w) = (Inr R, c', w') \<longrightarrow>
      (\<exists>pre t st.
         fetch_log w' = fetch_log w @ pre @
           [api_request c' endpoints_vision_ocr
             (JObj [(''image'', JStr img), (''language'', JStr aux),
                    (''timestamp'', JNum (int (now w)))]) no_options] \<and>
         net (length (fetch_log w) + length pre)
           (api_request c' endpoints_vision_ocr
             (JObj [(''image'', JStr img), (''language'', JStr aux),
                    (''timestamp'', JNum (int (now w)))]) no_options) =
           Responds t st (Some R))) \<and>
   (analyzeDocument net img aux True (c, w) = (Inr R, c', w') \<longrightarrow>
      map_of (visionCache c') (generateCacheKey ''document'' img aux) = Some R) \<and>
   (map_of (visionCache d) (generateCacheKey ''document'' img aux) = Some R \<longrightarrow>
      analyzeDocument net' img aux True (d, v) = (Inr R, d, v)) \<and>
   (map_of (visionCache c) (generateCacheKey ''document'' img aux) = None \<and>
    analyzeDocument net img aux True (c, w) = (Inr R, c', w') \<longrightarrow>
      (\<exists>pre t st.
         fetch_log w' = fetch_log w @ pre @
           [api_request c' endpoints_vision_document
             (JObj [(''image'', JStr img), (''document_type'', JStr aux),
                    (''timestamp'', JNum (int (now w)))]) no_options] \<and>
         net (length (fetch_log w) + length pre)
           (api_request c' endpoints_vision_document
             (JObj [(''image'', JStr img), (''document_type'', JStr aux),
                    (''timestamp'', JNum (int (now w)))]) no_options) =
           Responds t st (Some R))) \<and>
   (analyzeMedicalImage net img aux True (c, w) = (Inr R, c', w') \<longrightarrow>
      map_of (visionCache c') (generateCacheKey ''medical'' img aux) = Some R) \<and>
   (map_of (visionCache d) (generateCacheKey ''medical'' img aux) = Some R \<longrightarrow>
      analyzeMedicalImage net' img aux True (d, v) = (Inr R, d, v)) \<and>
   (map_of (visionCache c) (generateCacheKey ''medical'' img aux) = None \<and>
    analyzeMedicalImage net img aux True (c, w) = (Inr R, c', w') \<longrightarrow>
      (\<exists>pre t st.
         fetch_log w' = fetch_log w @ pre @
           [api_request c' endpoints_vision_medical
             (JObj [(''image'', JStr img), (''symptoms'', JStr aux),
                    (''timestamp'', JNum (int (now w)))]) no_options] \<and>
         net (length (fetch_log w) + length pre)
           (api_request c' endpoints_vision_medical
             (JObj [(''image'', JStr img), (''symptoms'', JStr aux),
                    (''timestamp'', JNum (int (now w)))]) no_options) =
           Responds t st (Some R))) \<and>
   (img \<noteq> [] \<and> multimodalChat net aux (Some img) True (c, w) = (Inr R, c', w') \<longrightarrow>
      map_of (visionCache c') (generateCacheKey ''chat'' img aux) = Some R) \<and>
   (img \<noteq> [] \<and> map_of (visionCache d) (generateCacheKey ''chat'' img aux) = Some R \<longrightarrow>
      multimodalChat net' aux (Some img) True (d, v) = (Inr R, d, v)) \<and>
   (img \<noteq> [] \<and> map_of (visionCache c) (generateCacheKey ''chat'' img aux) = None \<and>
    multimodalChat net aux (Some img) True (c, w) = (Inr R, c', w') \<longrightarrow>
      (\<exists>pre t st.
         fetch_log w' = fetch_log w @ pre @
           [api_request c' endpoints_multimodal_chat
             (JObj [(''text'', JStr aux), (''image'', JStr img),
                    (''timestamp'', JNum (int (now w)))]) no_options] \<and>
         net (length (fetch_log w) + length pre)
           (api_request c' endpoints_multimodal_chat
             (JObj [(''text'', JStr aux), (''image'', JStr img),
                    (''timestamp'', JNum (int (now w)))]) no_options) =
           Responds t st (Some R)))"
proof -
  note k = generateCacheKey_aux [of kind img aux aux'] generateCacheKey_image [of kind img aux img']
  note o = serverOCR_stores [of net img aux c w R c' w'] serverOCR_lookup [of d img aux R net' v]
    serverOCR_miss [of c img aux net w R c' w']
  note a = analyzeDocument_stores [of net img aux c w R c' w']
    analyzeDocument_lookup [of d img aux R net' v]
    analyzeDocument_miss [of c img aux net w R c' w']
  note m = analyzeMedicalImage_stores [of net img aux c w R c' w']
    analyzeMedicalImage_lookup [of d img aux R net' v]
    analyzeMedicalImage_miss [of c img aux net w R c' w']
  note t = multimodalChat_stores [of net aux img c w R c' w']
    multimodalChat_lookup [of d img aux R net' v]
    multimodalChat_miss [of c img aux net w R c' w']
  show ?thesis
    apply (intro conjI impI)
    using k o a m t by (simp_all only: simp_thms)
qed

text \<open>Each of the four calls against a station that answers what it was sent: the first call
  issues one request and stores its answer, the same call again changes nothing, and a call
  with another parameter or another image issues a second request.\<close>

theorem vision_cache_roundtrip_witness:
  "(case serverOCR vision_net photo_a ''en'' True (connected_client, fresh_world) of
      (r, c1, w1) \<Rightarrow>
        r = Inr (JObj [(''extracted_text'', JStr photo_a), (''confidence'', JNum 1), (''language_detected'', JStr ''en'')]) \<and>
        map req_url (fetch_log w1) = [station @ endpoints_vision_ocr] \<and>
        map_of (visionCache c1) (generateCacheKey ''ocr'' photo_a ''en'') =
          Some (JObj [(''extracted_text'', JStr photo_a), (''confidence'', JNum 1), (''language_detected'', JStr ''en'')]) \<and>
        serverOCR vision_net photo_a ''en'' True (c1, w1) = (r, c1, w1) \<and>
        length (fetch_log (snd (snd (serverOCR vision_net photo_a ''ar'' True (c1, w1))))) = 2 \<and>
        length (fetch_log (snd (snd (serverOCR vision_net photo_c ''en'' True (c1, w1))))) = 2) \<and>
   (case analyzeDocument vision_net photo_a ''general'' True (connected_client, fresh_world) of
      (r, c1, w1) \<Rightarrow>
        r = Inr (JObj [(''document_type'', JStr ''asylum_application''), (''completion_percentage'', JNum 0)]) \<and>
        map req_url (fetch_log w1) = [station @ endpoints_vision_document] \<and>
        map_of (visionCache c1) (generateCacheKey ''document'' photo_a ''general'') =
          Some (JObj [(''document_type'', JStr ''asylum_application''), (''completion_percentage'', JNum 0)]) \<and>
        analyzeDocument vision_net photo_a ''general'' True (c1, w1) = (r, c1, w1) \<and>
        length (fetch_log (snd (snd (analyzeDocument vision_net photo_a ''passport'' True (c1, w1))))) = 2 \<and>
        length (fetch_log (snd (snd (analyzeDocument vision_net photo_c ''general'' True (c1, w1))))) = 2) \<and>
   (case analyzeMedicalImage vision_net photo_a ''fever'' True (connected_client, fresh_world) of
      (r, c1, w1) \<Rightarrow>
        r = Inr (JObj [(''urgency_level'', JStr ''high''), (''symptoms'', JStr ''fever'')]) \<and>
        map req_url (fetch_log w1) = [station @ endpoints_vision_medical] \<and>
        map_of (visionCache c1) (generateCacheKey ''medical'' photo_a ''fever'') =
          Some (JObj [(''urgency_level'', JStr ''high''), (''symptoms'', JStr ''fever'')]) \<and>
        analyzeMedicalImage vision_net photo_a ''fever'' True (c1, w1) = (r, c1, w1) \<and>
        length (fetch_log (snd (snd (analyzeMedicalImage vision_net photo_a ''cough'' True (c1, w1))))) = 2 \<and>
        length (fetch_log (snd (snd (analyzeMedicalImage vision_net photo_c ''fever'' True (c1, w1))))) = 2) \<and>
   (case multimodalChat vision_net ''what is this'' (Some photo_a) True (connected_client, fresh_world) of
      (r, c1, w1) \<Rightarrow>
        r = Inr (JObj [(''response'', JStr ''what is this''), (''language_detected'', JStr ''en'')]) \<and>
        map req_url (fetch_log w1) = [station @ endpoints_multimodal_chat] \<and>
        map_of (visionCache c1) (generateCacheKey ''chat'' photo_a ''what is this'') =
          Some (JObj [(''response'', JStr ''what is this''), (''language_detected'', JStr ''en'')]) \<and>
        multimodalChat vision_net ''what is this'' (Some photo_a) True (c1, w1) = (r, c1, w1) \<and>
        length (fetch_log (snd (snd (multimodalChat vision_net ''translate it'' (Some photo_a) True (c1, w1))))) = 2 \<and>
        length (fetch_log (snd (snd (multimodalChat vision_net ''what is this'' (Some photo_c) True (c1, w1))))) = 2)"
proof -
  have ne: "photo_a \<noteq> []" by (simp add: photo_a_def)
  note rt = vision_cache_roundtrip [where net = vision_net and net' = vision_net and img = photo_a
      and c = connected_client and w = fresh_world]
  obtain c1 w1 where
    ev1: "serverOCR vision_net photo_a ''en'' True (connected_client, fresh_world) = (Inr (JObj [(''extracted_text'', JStr photo_a), (''confidence'', JNum 1), (''language_detected'', JStr ''en'')]), c1, w1)"
    and c1: "c1 = connected_client\<lparr>visionCache := [(generateCacheKey ''ocr'' photo_a ''en'', JObj [(''extracted_text'', JStr photo_a), (''confidence'', JNum 1), (''language_detected'', JStr ''en'')])]\<rparr>"
    and w1: "w1 = fresh_world\<lparr>now := 1500,
                fetch_log := [api_request connected_client endpoints_vision_ocr
                   (JObj [(''image'', JStr photo_a), (''language'', JStr ''en''), (''timestamp'', JNum 0)]) no_options]\<rparr>"
    by (simp add: eval3_defs vision_net_def photo_c_def)
  have st1: "map_of (visionCache c1) (generateCacheKey ''ocr'' photo_a ''en'') = Some (JObj [(''extracted_text'', JStr photo_a), (''confidence'', JNum 1), (''language_detected'', JStr ''en'')])"
    using rt [where aux = "''en''" and R = "JObj [(''extracted_text'', JStr photo_a), (''confidence'', JNum 1), (''language_detected'', JStr ''en'')]" and c' = c1 and w' = w1] ev1 ne by blast
  have again1: "serverOCR vision_net photo_a ''en'' True (c1, w1) = (Inr (JObj [(''extracted_text'', JStr photo_a), (''confidence'', JNum 1), (''language_detected'', JStr ''en'')]), c1, w1)"
    using rt [where aux = "''en''" and R = "JObj [(''extracted_text'', JStr photo_a), (''confidence'', JNum 1), (''language_detected'', JStr ''en'')]" and d = c1 and v = w1] st1 ne by blast
  have other1:
    "map req_url (fetch_log w1) = [station @ endpoints_vision_ocr]"
    "length (fetch_log (snd (snd (serverOCR vision_net photo_a ''ar'' True (c1, w1))))) = 2"
    "length (fetch_log (snd (snd (serverOCR vision_net photo_c ''en'' True (c1, w1))))) = 2"
    unfolding c1 w1 by (simp_all add: eval3_defs vision_net_def photo_c_def)
  obtain c2 w2 where
    ev2: "analyzeDocument vision_net photo_a ''general'' True (connected_client, fresh_world) = (Inr (JObj [(''document_type'', JStr ''asylum_application''), (''completion_percentage'', JNum 0)]), c2, w2)"
    and c2: "c2 = connected_client\<lparr>visionCache := [(generateCacheKey ''document'' photo_a ''general'', JObj [(''document_type'', JStr ''asylum_application''), (''completion_percentage'', JNum 0)])]\<rparr>"
    and w2: "w2 = fresh_world\<lparr>now := 1200,
                fetch_log := [api_request connected_client endpoints_vision_document
                   (JObj [(''image'', JStr photo_a), (''document_type'', JStr ''general''), (''timestamp'', JNum 0)]) no_options]\<rparr>"
    by (simp add: eval3_defs vision_net_def photo_c_def)
  have st2: "map_of (visionCache c2) (generateCacheKey ''document'' photo_a ''general'') = Some (JObj [(''document_type'', JStr ''asylum_application''), (''completion_percentage'', JNum 0)])"
    using rt [where aux = "''general''" and R = "JObj [(''document_type'', JStr ''asylum_application''), (''completion_percentage'', JNum 0)]" and c' = c2 and w' = w2] ev2 ne by blast
  have again2: "analyzeDocument vision_net photo_a ''general'' True (c2, w2) = (Inr (JObj [(''document_type'', JStr ''asylum_application''), (''completion_percentage'', JNum 0)]), c2, w2)"
    using rt [where aux = "''general''" and R = "JObj [(''document_type'', JStr ''asylum_application''), (''completion_percentage'', JNum 0)]" and d = c2 and v = w2] st2 ne by blast
  have other2:
    "map req_url (fetch_log w2) = [station @ endpoints_vision_document]"
    "length (fetch_log (snd (snd (analyzeDocument vision_net photo_a ''passport'' True (c2, w2))))) = 2"
    "length (fetch_log (snd (snd (analyzeDocument vision_net photo_c ''general'' True (c2, w2))))) = 2"
    unfolding c2 w2 by (simp_all add: eval3_defs vision_net_def photo_c_def)
  obtain c3 w3 where
    ev3: "analyzeMedicalImage vision_net photo_a ''fever'' True (connected_client, fresh_world) = (Inr (JObj [(''urgency_level'', JStr ''high''), (''symptoms'', JStr ''fever'')]), c3, w3)"
    and c3: "c3 = connected_client\<lparr>visionCache := [(generateCacheKey ''medical'' photo_a ''fever'', JObj [(''urgency_level'', JStr ''high''), (''symptoms'', JStr ''fever'')])]\<rparr>"
    and w3: "w3 = fresh_world\<lparr>now := 900,
                fetch_log := [api_request connected_client endpoints_vision_medical
                   (JObj [(''image'', JStr photo_a), (''symptoms'', JStr ''fever''), (''timestamp'', JNum 0)]) no_options]\<rparr>"
    by (simp add: eval3_defs vision_net_def photo_c_def)
  have st3: "map_of (visionCache c3) (generateCacheKey ''medical'' photo_a ''fever'') = Some (JObj [(''urgency_level'', JStr ''high''), (''symptoms'', JStr ''fever'')])"
    using rt [where aux = "''fever''" and R = "JObj [(''urgency_level'', JStr ''high''), (''symptoms'', JStr ''fever'')]" and c' = c3 and w' = w3] ev3 ne by blast
  have again3: "analyzeMedicalImage vision_net photo_a ''fever'' True (c3, w3) = (Inr (JObj [(''urgency_level'', JStr ''high''), (''symptoms'', JStr ''fever'')]), c3, w3)"
    using rt [where aux = "''fever''" and R = "JObj [(''urgency_level'', JStr ''high''), (''symptoms'', JStr ''fever'')]" and d = c3 and v = w3] st3 ne by blast
  have other3:
    "map req_url (fetch_log w3) = [station @ endpoints_vision_medical]"
    "length (fetch_log (snd (snd (analyzeMedicalImage vision_net photo_a ''cough'' True (c3, w3))))) = 2"
    "length (fetch_log (snd (snd (analyzeMedicalImage vision_net photo_c ''fever'' True (c3, w3))))) = 2"
    unfolding c3 w3 by (simp_all add: eval3_defs vision_net_def photo_c_def)
  obtain c4 w4 where
    ev4: "multimodalChat vision_net ''what is this'' (Some photo_a) True (connected_client, fresh_world) = (Inr (JObj [(''response'', JStr ''what is this''), (''language_detected'', JStr ''en'')]), c4, w4)"
    and c4: "c4 = connected_client\<lparr>visionCache := [(generateCacheKey ''chat'' photo_a ''what is this'', JObj [(''response'', JStr ''what is this''), (''language_detected'', JStr ''en'')])]\<rparr>"
    and w4: "w4 = fresh_world\<lparr>now := 800,
                fetch_log := [api_request connected_client endpoints_multimodal_chat
                   (JObj [(''text'', JStr ''what is this''), (''image'', JStr photo_a), (''timestamp'', JNum 0)]) no_options]\<rparr>"
    by (simp add: eval3_defs vision_net_def photo_c_def)
  have st4: "map_of (visionCache c4) (generateCacheKey ''chat'' photo_a ''what is this'') = Some (JObj [(''response'', JStr ''what is this''), (''language_detected'', JStr ''en'')])"
    using rt [where aux = "''what is this''" and R = "JObj [(''response'', JStr ''what is this''), (''language_detected'', JStr ''en'')]" and c' = c4 and w' = w4] ev4 ne by blast
  have again4: "multimodalChat vision_net ''what is this'' (Some photo_a) True (c4, w4) = (Inr (JObj [(''response'', JStr ''what is this''), (''language_detected'', JStr ''en'')]), c4, w4)"
    using rt [where aux = "''what is this''" and R = "JObj [(''response'', JStr ''what is this''), (''language_detected'', JStr ''en'')]" and d = c4 and v = w4] st4 ne by blast
  have other4:
    "map req_url (fetch_log w4) = [station @ endpoints_multimodal_chat]"
    "length (fetch_log (snd (snd (multimodalChat vision_net ''translate it'' (Some photo_a) True (c4, w4))))) = 2"
    "length (fetch_log (snd (snd (multimodalChat vision_net ''what is this'' (Some photo_c) True (c4, w4))))) = 2"
    unfolding c4 w4 by (simp_all add: eval3_defs vision_net_def photo_c_def)
  show ?thesis
    by (simp add: ev1 st1 again1 other1 ev2 st2 again2 other2 ev3 st3 again3 other3 ev4 st4 again4 other4)
qed

subsection \<open>The vision pipeline\<close>

lemma serverOCR_language_other:
  assumes "serverOCR_language positive net img lang (c, w) = (Inr R, c1, w1)"
    and "lang \<noteq> JUndefined" and "\<forall>l. lang \<noteq> JStr l"
  shows "\<exists>h. hashString_any positive lang = Inr h \<and>
             map_of (visionCache c1) (''ocr'' @ ''_'' @ hashString img @ ''_'' @ h) = Some R"
proof -
  obtain h where h: "hashString_any positive lang = Inr h"
    using assms by (cases "hashString_any positive lang"; cases lang) (auto simp: serverOCR_language_def)
  let ?k = "''ocr'' @ ''_'' @ hashString img @ ''_'' @ h"
  have "map_of (visionCache c1) ?k = Some R"
  proof (cases "map_has (visionCache c) ?k")
    case True
    with assms h show ?thesis
      by (cases lang) (auto simp: serverOCR_language_def map_has_def map_get_def)
  next
    case False
    with assms h show ?thesis
      by (cases lang)
         (auto simp: serverOCR_language_def cacheVisionResult_lookup split: prod.splits sum.splits)
  qed
  with h show ?thesis by blast
qed

lemma serverOCR_language_stores:
  assumes "serverOCR_language positive net img lang (c, w) = (Inr R, c1, w1)"
  shows "\<exists>k. map_of (visionCache c1) k = Some R"
proof (cases "lang = JUndefined \<or> (\<exists>l. lang = JStr l)")
  case True
  then show ?thesis using assms serverOCR_stores
    by (auto simp: serverOCR_language_def) blast+
next
  case False
  then show ?thesis using serverOCR_language_other [OF assms] by blast
qed

lemma serverOCR_language_string:
  "serverOCR_language positive net img (JStr l) cw = serverOCR net img l True cw"
  by (simp add: serverOCR_language_def)

lemma analyzeDocument_failure_cache:
  assumes "analyzeDocument net img docType useCache (c, w) = (Inl e, c1, w1)"
  shows "visionCache c1 = visionCache c"
  using assms
  by (auto simp: analyzeDocument_def Let_def dest: makeRequest_visionCache
           split: if_splits prod.splits sum.splits)

text \<open>
  Claim C1 (vision pipeline partial failure), as the code of gemmorandum-multimodal.js has it.
  When Stage 1 (OCR) succeeds and Stage 2 (document analysis) fails,
  \<open>processImageWithServerVision\<close> ends in \<open>handleVisionProcessingError\<close>: the page shows the
  error message and the capture section, the progress indicator is hidden, and the
  processing state stays at the analysis stage. The form data, the session state (its form
  type included), the conversation and the language are left as they were: no
  classification is made up, no field flags a partial failure, and the text of Stage 1 is
  not part of the form data. It survives only as an entry of the client's cache (under the
  OCR key of the image and the language, when the language is a string). This holds for
  every language value the assistant may hold.
\<close>

theorem stage2_failure:
  assumes "aiClient st = Some cl"
    and "serverOCR_language positive net img (currentLanguage st) (cl, w) = (Inr ocrResult, cl1, w1)"
    and "analyzeDocument net img ''general'' True (cl1, w1) = (Inl e, cl2, w2)"
  shows "\<exists>st'.
           processImageWithServerVision positive net present (Inr img) (st, w) = (st', w2) \<and>
           formData st' = formData st \<and>
           sessionState st' = sessionState st \<and>
           conversationHistory st' = conversationHistory st \<and>
           currentLanguage st' = currentLanguage st \<and>
           stage (processingState st') = ''analysis'' \<and>
           progress (processingState st') = 50 \<and>
           dom st' = \<lparr> visible_section = ''form-capture-section'',
                       visionProgress_visible = False,
                       errorMessage = Some ''Vision processing failed. Please try again or use manual entry.'' \<rparr> \<and>
           aiClient st' = Some cl2 \<and>
           (\<exists>k. map_of (visionCache cl2) k = Some ocrResult) \<and>
           (\<forall>l. currentLanguage st = JStr l \<longrightarrow>
                map_of (visionCache cl2) (generateCacheKey ''ocr'' img l) = Some ocrResult)"
proof -
  have same: "visionCache cl2 = visionCache cl1"
    using analyzeDocument_failure_cache [OF assms(3)] .
  have cache: "\<exists>k. map_of (visionCache cl2) k = Some ocrResult"
    using serverOCR_language_stores [OF assms(2)] same by simp
  have key: "map_of (visionCache cl2) (generateCacheKey ''ocr'' img l) = Some ocrResult"
    if "currentLanguage st = JStr l" for l
    using assms(2) that serverOCR_stores [of net img l cl w ocrResult cl1 w1] same
    by (simp add: serverOCR_language_string)
  have stages: "visionStages positive net present img cl (st, w) =
      (Some e,
       st\<lparr>processingState := \<lparr> stage = ''analysis'', progress = 50,
                                  message = ''Analyzing document structure...'',
                                  startTime = Some (now w1) \<rparr>,
          aiClient := Some cl2\<rparr>, w2)"
    using assms(2,3) by (simp add: visionStages_def Let_def)
  show ?thesis
    using assms(1) cache key
    by (simp add: processImageWithServerVision_def stages
                  handleVisionProcessingError_def showSection_def showError_def)
qed


text \<open>The station of \<open>ocr_only_net\<close> reads the text \<open>T\<close> and answers the document analysis
  with status 500; once with the language \<open>en\<close>, once with a number as language.\<close>

theorem stage2_failure_witness:
  "aiClient assistant = Some connected_client \<and>
   (case serverOCR_language no_numeric_string ocr_only_net photo_a (currentLanguage assistant)
           (connected_client, fresh_world) of
      (r, cl1, w1) \<Rightarrow>
        r = Inr (JObj [(''extracted_text'', JStr ''T''), (''confidence'', JNum 1),
                       (''language_detected'', JStr ''en'')]) \<and>
        fst (analyzeDocument ocr_only_net photo_a ''general'' True (cl1, w1)) =
          Inl (ApiRequestFailed 500)) \<and>
   (case processImageWithServerVision no_numeric_string ocr_only_net no_rendering (Inr photo_a)
           (assistant, fresh_world) of
      (st', w') \<Rightarrow>
        formData st' = formData assistant \<and>
        sessionState st' = sessionState assistant \<and>
        errorMessage (dom st') =
          Some ''Vision processing failed. Please try again or use manual entry.'' \<and>
        map_option visionCache (aiClient st') =
          Some [(generateCacheKey ''ocr'' photo_a ''en'',
                 JObj [(''extracted_text'', JStr ''T''), (''confidence'', JNum 1),
                       (''language_detected'', JStr ''en'')])]) \<and>
   (case processImageWithServerVision no_numeric_string ocr_only_net no_rendering (Inr photo_a)
           (assistant\<lparr>currentLanguage := JNum 7\<rparr>, fresh_world) of
      (st', w') \<Rightarrow>
        formData st' = formData assistant \<and>
        sessionState st' = sessionState assistant \<and>
        errorMessage (dom st') =
          Some ''Vision processing failed. Please try again or use manual entry.'' \<and>
        map_option visionCache (aiClient st') =
          Some [(''ocr_'' @ hashString photo_a @ ''_0'',
                 JObj [(''extracted_text'', JStr ''T''), (''confidence'', JNum 1),
                       (''language_detected'', JStr ''en'')])])"
proof -
  let ?T = "JObj [(''extracted_text'', JStr ''T''), (''confidence'', JNum 1),
                  (''language_detected'', JStr ''en'')]"
  have a: "aiClient assistant = Some connected_client"
    "aiClient (assistant\<lparr>currentLanguage := JNum 7\<rparr>) = Some connected_client"
    by (simp_all add: eval4_defs)
  obtain cl1 w1 where
    s1: "serverOCR_language no_numeric_string ocr_only_net photo_a (currentLanguage assistant)
           (connected_client, fresh_world) = (Inr ?T, cl1, w1)"
    and cl1: "cl1 = connected_client\<lparr>visionCache := [(generateCacheKey ''ocr'' photo_a ''en'', ?T)]\<rparr>"
    and w1: "w1 = fresh_world\<lparr>now := 1500,
                fetch_log := [api_request connected_client endpoints_vision_ocr
                   (JObj [(''image'', JStr photo_a), (''language'', JStr ''en''),
                          (''timestamp'', JNum 0)]) no_options]\<rparr>"
    by (simp add: eval4_defs)
  obtain cl2 w2 where
    s2: "analyzeDocument ocr_only_net photo_a ''general'' True (cl1, w1) =
           (Inl (ApiRequestFailed 500), cl2, w2)"
    and cl2: "visionCache cl2 = [(generateCacheKey ''ocr'' photo_a ''en'', ?T)]"
    unfolding cl1 w1 by (simp add: eval4_defs)
  from stage2_failure [OF a(1) s1 s2, of no_rendering]
  obtain st' where r1:
    "processImageWithServerVision no_numeric_string ocr_only_net no_rendering (Inr photo_a)
       (assistant, fresh_world) = (st', w2)"
    "formData st' = formData assistant" "sessionState st' = sessionState assistant"
    "dom st' = \<lparr> visible_section = ''form-capture-section'',
                       visionProgress_visible = False,
                       errorMessage = Some ''Vision processing failed. Please try again or use manual entry.'' \<rparr>"
    "aiClient st' = Some cl2"
    by blast
  obtain cl3 w3 where
    s3: "serverOCR_language no_numeric_string ocr_only_net photo_a
           (currentLanguage (assistant\<lparr>currentLanguage := JNum 7\<rparr>))
           (connected_client, fresh_world) = (Inr ?T, cl3, w3)"
    and cl3: "cl3 = connected_client\<lparr>visionCache := [(''ocr_'' @ hashString photo_a @ ''_0'', ?T)]\<rparr>"
    and w3: "w3 = fresh_world\<lparr>now := 1500,
                fetch_log := [api_request connected_client endpoints_vision_ocr
                   (JObj [(''image'', JStr photo_a), (''language'', JNum 7),
                          (''timestamp'', JNum 0)]) no_options]\<rparr>"
    by (simp add: eval4_defs)
  obtain cl4 w4 where
    s4: "analyzeDocument ocr_only_net photo_a ''general'' True (cl3, w3) =
           (Inl (ApiRequestFailed 500), cl4, w4)"
    and cl4: "visionCache cl4 = [(''ocr_'' @ hashString photo_a @ ''_0'', ?T)]"
    unfolding cl3 w3 by (simp add: eval4_defs)
  from stage2_failure [OF a(2) s3 s4, of no_rendering]
  obtain st'' where r2:
    "processImageWithServerVision no_numeric_string ocr_only_net no_rendering (Inr photo_a)
       (assistant\<lparr>currentLanguage := JNum 7\<rparr>, fresh_world) = (st'', w4)"
    "formData st'' = formData (assistant\<lparr>currentLanguage := JNum 7\<rparr>)"
    "sessionState st'' = sessionState (assistant\<lparr>currentLanguage := JNum 7\<rparr>)"
    "dom st'' = \<lparr> visible_section = ''form-capture-section'',
                       visionProgress_visible = False,
                       errorMessage = Some ''Vision processing failed. Please try again or use manual entry.'' \<rparr>"
    "aiClient st'' = Some cl4"
    by blast
  show ?thesis using a(1) r1(2-) r2(2-) cl2 cl4 by (simp add: s1 s2 r1(1) r2(1))
qed

text \<open>
  Claim C1 as stated fails: in that run Stage 1 returns the text \<open>T\<close>, and the assistant ends
  with the empty form data it started with, no form type, and the generic error message;
  there is no field that flags a partial failure. Against the healthy station the same call
  stores the extracted text and the form type.
\<close>

theorem stage2_failure_discards_text:
  "fst (serverOCR ocr_only_net photo_a ''en'' True (connected_client, fresh_world)) =
     Inr (JObj [(''extracted_text'', JStr ''T''), (''confidence'', JNum 1),
                (''language_detected'', JStr ''en'')]) \<and>
   (case processImageWithServerVision no_numeric_string ocr_only_net no_rendering (Inr photo_a)
           (assistant, fresh_world) of
      (st', w') \<Rightarrow>
        formData st' = None \<and>
        formType (sessionState st') = JNull \<and>
        conversationHistory st' = [] \<and>
        dom st' = \<lparr> visible_section = ''form-capture-section'',
                    visionProgress_visible = False,
                    errorMessage = Some ''Vision processing failed. Please try again or use manual entry.'' \<rparr> \<and>
        map req_url (fetch_log w') = [station @ endpoints_vision_ocr, station @ endpoints_vision_document]) \<and>
   (case processImageWithServerVision no_numeric_string healthy_net no_rendering (Inr photo_a)
           (assistant, fresh_world) of
      (st', w') \<Rightarrow>
        map_option extractedText (formData st') = Some (JStr photo_a) \<and>
        formType (sessionState st') = JStr ''asylum_application'' \<and>
        errorMessage (dom st') = None)"
  by (simp add: eval4_defs)

text \<open>The function of the class in gemmorandum-multimodal-fixed.js never reaches Stage 1: it
  rejects with a \<open>TypeError\<close>, issues no request and leaves form data and page alone.\<close>

lemma fixed_version_rejects_before_stage1:
  "fst (processImageWithServerVision_fixed converted fallback (st, w)) = TypeError \<and>
   snd (snd (processImageWithServerVision_fixed converted fallback (st, w))) = w \<and>
   formData (fst (snd (processImageWithServerVision_fixed converted fallback (st, w)))) = formData st \<and>
   dom (fst (snd (processImageWithServerVision_fixed converted fallback (st, w)))) = dom st"
  by (simp add: processImageWithServerVision_fixed_def split: option.splits sum.splits)

subsection \<open>The admission scheduler\<close>

lemmas sched_defs = submit_def scheduler_3_1_def request_def fairness_scenario_def Let_def

text \<open>
  Claim C3 (admission fairness scenario), as the admission rule decides it. With
  \<open>maxConcurrent = 3\<close> and \<open>maxQueueSize = 1\<close>, the submissions chat, chat, chat, emergency, chat
  are decided as follows: the three chats are admitted and execute; the emergency request
  finds the queue empty and takes its one place, evicting nothing, so that no request is
  dropped; the last chat finds the slots and the queue full, the queue holding the emergency
  request, which is more urgent, and is rejected.
\<close>

theorem fairness_scenario_outcome:
  "snd (submit_all fairness_scenario scheduler_3_1) =
     [Admitted, Admitted, Admitted, Enqueued, Rejected] \<and>
   map env_id (executing (fst (submit_all fairness_scenario scheduler_3_1))) = [1, 2, 3] \<and>
   map entry_envelope (waiting (fst (submit_all fairness_scenario scheduler_3_1))) =
     [request 4 Emergency] \<and>
   dropped (fst (submit_all fairness_scenario scheduler_3_1)) = [] \<and>
   urgency Chat < urgency Emergency"
  by (simp add: sched_defs)

text \<open>
  Claim C3 as stated fails: when the emergency request arrives no chat is queued (all three
  are executing), the emergency request is enqueued, not enqueued by eviction, and no
  request is ever dropped.
\<close>

theorem fairness_scenario_no_eviction:
  "waiting (fst (submit_all (take 3 fairness_scenario) scheduler_3_1)) = [] \<and>
   snd (submit_all fairness_scenario scheduler_3_1) ! 3 = Enqueued \<and>
   snd (submit_all fairness_scenario scheduler_3_1) ! 3 \<noteq> EnqueuedEvicting (request 3 Chat) \<and>
   dropped (fst (submit_all fairness_scenario scheduler_3_1)) = []"
  by (simp add: sched_defs)

text \<open>An eviction needs a queued request: with a fourth chat before the emergency request,
  that chat is queued, evicted by the emergency request and reported dropped.\<close>

lemma eviction_of_a_queued_chat:
  "snd (submit_all [request 1 Chat, request 2 Chat, request 3 Chat, request 4 Chat,
                    request 5 Emergency, request 6 Chat] scheduler_3_1) =
     [Admitted, Admitted, Admitted, Enqueued, EnqueuedEvicting (request 4 Chat), Rejected]"
  by (simp add: sched_defs)

end
